theory Spec2Isabelle
  imports Main
begin

section \<open>JavaScript values used by the crawler\<close>

text \<open>
  A thrown or rejected JavaScript error. Both constructors carry the \<open>message\<close>
  property; \<open>TypeError\<close> is what the runtime raises on a property access through
  \<open>undefined\<close> or \<open>null\<close>.
\<close>

datatype error = Error (message: string) | TypeError (message: string)

text \<open>
  A settled promise. The collaborators of the crawler (queues, locker, store, fetcher)
  are asynchronous; one crawl cycle awaits them one after the other, so a promise is
  modelled by the way it settles.
\<close>

datatype promise = Resolved | Rejected error

text \<open>\<open>Q.all(promises)\<close>: \<open>None\<close> when every promise resolves, the first rejection otherwise.\<close>

fun Q_all :: "promise list \<Rightarrow> error option" where
  "Q_all [] = None"
| "Q_all (Resolved # ps) = Q_all ps"
| "Q_all (Rejected e # ps) = Some e"

text \<open>
  Truthiness of an optional string (\<open>None\<close> stands for \<open>undefined\<close> and \<open>null\<close>):
  \<open>!request.url\<close> holds for a missing and for an empty string.
\<close>

definition truthy :: "string option \<Rightarrow> bool" where
  "truthy s = (case s of None \<Rightarrow> False | Some v \<Rightarrow> v \<noteq> [])"

text \<open>\<open>x || d\<close> on an optional number: \<open>undefined\<close> and \<open>0\<close> are falsy.\<close>

definition or_default :: "int option \<Rightarrow> int \<Rightarrow> int" where
  "or_default x d = (case x of None \<Rightarrow> d | Some v \<Rightarrow> if v = 0 then d else v)"

text \<open>A template literal prints a missing value as \<open>undefined\<close>.\<close>

definition js_str :: "string option \<Rightarrow> string" where
  "js_str s = (case s of None \<Rightarrow> ''undefined'' | Some v \<Rightarrow> v)"

text \<open>\<open>String.prototype.startsWith\<close>.\<close>

fun startsWith :: "string \<Rightarrow> string \<Rightarrow> bool" where
  "startsWith s [] = True"
| "startsWith [] (p # ps) = False"
| "startsWith (c # cs) (p # ps) = (c = p \<and> startsWith cs ps)"

text \<open>\<open>s.split('/')\<close>: the pieces between the slashes, the empty ones included.\<close>

fun split_slash :: "string \<Rightarrow> string list" where
  "split_slash [] = [[]]"
| "split_slash (c # cs) =
     (if c = CHR ''/'' then [] # split_slash cs
      else (case split_slash cs of [] \<Rightarrow> [[c]] | p # ps \<Rightarrow> (c # p) # ps))"

text \<open>\<open>String.prototype.toLowerCase\<close> on the ASCII letters.\<close>

definition lower_char :: "char \<Rightarrow> char" where
  "lower_char c =
     (let n = (of_char c :: nat) in if 65 \<le> n \<and> n \<le> 90 then char_of (n + 32) else c)"

definition toLowerCase :: "string \<Rightarrow> string" where
  "toLowerCase s = map lower_char s"

text \<open>\<open>Number.prototype.toString\<close> on an integer, in decimal digits.\<close>

definition digit_char :: "nat \<Rightarrow> char" where
  "digit_char n = ''0123456789'' ! n"

fun digits :: "nat \<Rightarrow> string" where
  "digits n =
     (if n < 10 then [digit_char n]
      else digits (n div 10) @ [digit_char (n mod 10)])"

definition int_toString :: "int \<Rightarrow> string" where
  "int_toString i = (if i < 0 then CHR ''-'' # digits (nat (- i)) else digits (nat i))"

section \<open>Request\<close>

datatype policy = Policy (getShortForm: string)

record relation =
  origin :: "string option"
  rel_name :: "string option"
  rel_type :: "string option"

text \<open>
  \<open>request.context\<close>: the parent qualifier, the relation descriptor and the remaining
  free-form entries.
\<close>

record req_context =
  qualifier :: "string option"
  relation :: "relation option"
  extras :: "(string \<times> string) list"

definition empty_context :: req_context where
  "empty_context = \<lparr>qualifier = None, relation = None, extras = []\<rparr>"

record element =
  e_url :: "string option"
  e_id :: "string option"

text \<open>The \<open>_metadata\<close> object of a document.\<close>

record metadata =
  m_type :: "string option"
  m_url :: "string option"
  fetchedAt :: "string option"
  etag :: "string option"
  links :: "(string \<times> string \<times> string list) list"
  headers_link :: "string option"
  version :: "nat option"

text \<open>
  A document object: its opaque payload fields, the \<open>elements\<close> array of a wrapped
  collection and \<open>_metadata\<close>. What the fetcher delivers is an array or an object.
\<close>

record document =
  body :: "(string \<times> string) list"
  elements :: "element list option"
  metadata :: "metadata option"

datatype payload = ArrayDoc "element list" | ObjectDoc document

record headers =
  h_etag :: "string option"
  h_link :: "string option"

text \<open>
  \<open>request.response\<close>: the headers and the \<open>_metadataTemplate\<close> carried from the
  store (the entries it sets, to overlay on the fresh metadata).
\<close>

record metadataTemplate =
  t_type :: "string option"
  t_url :: "string option"
  t_fetchedAt :: "string option"
  t_etag :: "string option"
  t_links :: "(string \<times> string \<times> string list) list option"
  t_headers_link :: "string option"
  t_version :: "nat option"

record response =
  headers :: "headers option"
  template :: "metadataTemplate option"

datatype processControl = Skip | Requeue

datatype message_value = Text string | Err error

type_synonym lease = string

record request =
  rtype :: "string option"
  url :: "string option"
  rcontext :: "req_context option"
  policy :: "policy option"
  attemptCount :: "int option"
  document :: "payload option"
  response :: "response option"
  outcome :: "string option"
  rmessage :: "message_value option"
  control :: "processControl option"
  meta :: "(string \<times> int) list"
  promises :: "promise list"
  lock :: "lease option"
  upsert :: "string option"
  start :: "int option"
  loopName :: "string option"
  nextRequestTime :: "int option"

text \<open>
  Modelled from the spec: the class \<open>Request\<close> (request.js) is not among the sources.
  The constructor \<open>new Request(type, url, context)\<close> sets the identity of the request;
  a policy is attached on creation (spec 4.9), and every transient field (document,
  response, outcome, meta, promises, lock, upsert) starts absent.
\<close>

definition default_policy :: policy where
  "default_policy = Policy ''default''"

definition new_Request :: "string option \<Rightarrow> string option \<Rightarrow> req_context option \<Rightarrow> request" where
  "new_Request t u c =
     \<lparr>rtype = t, url = u, rcontext = c, policy = Some default_policy, attemptCount = None,
      document = None, response = None, outcome = None, rmessage = None, control = None,
      meta = [], promises = [], lock = None, upsert = None, start = None, loopName = None,
      nextRequestTime = None\<rparr>"

text \<open>
  Modelled from the spec: \<open>Request.markSkip\<close> and \<open>Request.markRequeue\<close> record the
  outcome and its reason and set how the later stages treat the request; the stages
  after a mark check \<open>shouldSkip\<close> (spec 4.3), and a request marked for requeue is
  routed through the requeue path (spec 4.7).
\<close>

definition markSkip :: "string \<Rightarrow> message_value option \<Rightarrow> request \<Rightarrow> request" where
  "markSkip oc msg r = r\<lparr>outcome := Some oc, rmessage := msg, control := Some Skip\<rparr>"

definition markRequeue :: "string \<Rightarrow> message_value option \<Rightarrow> request \<Rightarrow> request" where
  "markRequeue oc msg r = r\<lparr>outcome := Some oc, rmessage := msg, control := Some Requeue\<rparr>"

definition shouldSkip :: "request \<Rightarrow> bool" where
  "shouldSkip r = (control r \<noteq> None)"

definition shouldRequeue :: "request \<Rightarrow> bool" where
  "shouldRequeue r = (control r = Some Requeue)"

text \<open>
  Modelled from the spec: \<open>Request.addMeta\<close> accumulates stage counters in
  \<open>request.meta\<close>; \<open>Request.delay(ms)\<close> sets \<open>nextRequestTime\<close>, the earliest time
  for the next dequeue of the loop, the polling delay defaulting to 2000 ms;
  \<open>Request.track\<close> adds a side-effect promise to \<open>request.promises\<close>.
\<close>

definition addMeta :: "(string \<times> int) list \<Rightarrow> request \<Rightarrow> request" where
  "addMeta kvs r = r\<lparr>meta := kvs @ filter (\<lambda>kv. fst kv \<notin> set (map fst kvs)) (meta r)\<rparr>"

definition delay_request :: "int \<Rightarrow> int option \<Rightarrow> request \<Rightarrow> request" where
  "delay_request now ms r = r\<lparr>nextRequestTime := Some (now + or_default ms 2000)\<rparr>"

definition track :: "promise \<Rightarrow> request \<Rightarrow> request" where
  "track p r = r\<lparr>promises := promises r @ [p]\<rparr>"

section \<open>Effects of a crawl cycle\<close>

text \<open>
  Every call on a collaborator is an event, recorded with its arguments as they are at
  the time of the call. A function of the crawler returns the events it caused, in
  order. \<open>Push\<close> takes the pushed requests (one request is a list of one) and the name
  of the queue.
\<close>

datatype event =
    Pop
  | Lock string int
  | Unlock lease
  | Fetch request
  | Upsert "payload option"
  | Push "request list" string
  | Repush request request
  | PushDead request
  | Done request
  | Abandon request

text \<open>
  The crawler's options and the behaviour of its collaborators in one cycle: how each
  call settles, given its arguments. \<open>has_locker\<close> says whether a lock service is
  configured. \<open>now\<close>, \<open>utc_now\<close>, \<open>store_ms\<close> and \<open>time_ms\<close> are the readings of the
  clock: the time of the cycle, as a number and as the UTC string of \<open>fetchedAt\<close>, and
  the latencies that go into the meta of the request. \<open>url_path\<close> and \<open>url_query_page\<close> are \<open>URL.parse(u).path\<close> and
  \<open>URL.parse(u, true).query.page\<close> of the runtime library. The methods of \<open>Request\<close>
  that the spec does not describe (\<open>toString\<close>, \<open>shouldSave\<close>, \<open>getCollectionType\<close>,
  \<open>queueCollectionElement\<close>, which may track promises and call the queues) and the
  policy's \<open>shouldProcess\<close> are parameters as well, and so are \<open>parse\<close>, the
  parse-link-header library, and \<open>handlers\<close>, the methods of the processor by name
  other than \<open>collection\<close> and \<open>page\<close>.
\<close>

text \<open>
  What \<open>parse(linkHeader)\<close> returns: the \<open>last\<close> relation, if the header has one, with
  its \<open>page\<close> read as a number (\<open>None\<close> when the page is missing or not a number: the loop
  bound \<open>i <= links.last.page\<close> is then false).
\<close>

record link_rel =
  rel_page :: "int option"

record parsed_links =
  last_rel :: "link_rel option"

type_synonym handler = "request \<Rightarrow> (error + document) \<times> request \<times> event list"

record env =
  pollingDelay :: "int option"
  processingTtl :: "int option"
  orgList :: "string list option"
  has_locker :: bool
  now :: int
  store_ms :: int
  time_ms :: int
  pop_result :: "error + request option"
  lock_result :: "string \<Rightarrow> int \<Rightarrow> error + lease"
  unlock_result :: "lease \<Rightarrow> promise"
  fetch_result :: "request \<Rightarrow> error option \<times> request"
  upsert_result :: "payload option \<Rightarrow> error + string"
  push_result :: "request list \<Rightarrow> string \<Rightarrow> promise"
  repush_result :: "request \<Rightarrow> request \<Rightarrow> promise"
  pushDead_result :: "request \<Rightarrow> promise"
  done_result :: "request \<Rightarrow> promise"
  abandon_result :: "request \<Rightarrow> promise"
  url_path :: "string \<Rightarrow> string option"
  url_query_page :: "string \<Rightarrow> string option"
  toString :: "request \<Rightarrow> string"
  shouldSave :: "request \<Rightarrow> bool"
  getCollectionType :: "request \<Rightarrow> string option"
  shouldProcess :: "request \<Rightarrow> nat \<Rightarrow> bool"
  queueCollectionElement ::
    "string option \<Rightarrow> string option \<Rightarrow> string option \<Rightarrow> promise list \<times> event list"
  parse :: "string \<Rightarrow> parsed_links option"
  handlers :: "string \<Rightarrow> handler option"
  utc_now :: string

text \<open>The result of an awaited promise: the error it rejects with, if any.\<close>

definition settled :: "promise \<Rightarrow> error option" where
  "settled p = (case p of Resolved \<Rightarrow> None | Rejected e \<Rightarrow> Some e)"

section \<open>Crawler: queueing helpers\<close>

text \<open>\<open>_createQueuable\<close>: a new request that has just the things to queue.\<close>

definition createQueuable :: "request \<Rightarrow> request" where
  "createQueuable r =
     (new_Request (rtype r) (url r) (rcontext r))
       \<lparr>attemptCount := attemptCount r, policy := policy r\<rparr>"

text \<open>\<open>_queueDead\<close>: returns the promise of \<open>queues.pushDead\<close>.\<close>

definition queueDead :: "env \<Rightarrow> request \<Rightarrow> promise \<times> event list" where
  "queueDead env r =
     (let queuable = createQueuable r
      in (pushDead_result env queuable, [PushDead queuable]))"

text \<open>
  \<open>_shouldInclude\<close>: with a non-empty org list, a \<open>repo\<close>, \<open>repos\<close> or \<open>org\<close> request
  is included when the third piece of the path of its url, in lower case, is in the list.
  A path that is missing or has fewer than three pieces makes the property access throw.
\<close>

definition shouldInclude :: "env \<Rightarrow> string \<Rightarrow> string \<Rightarrow> error + bool" where
  "shouldInclude env t target =
     (case orgList env of
        None \<Rightarrow> Inr True
      | Some ol \<Rightarrow>
          if length ol = 0 then Inr True
          else if t = ''repo'' \<or> t = ''repos'' \<or> t = ''org'' then
            (case url_path env target of
               None \<Rightarrow> Inl (TypeError ''Cannot read property split of null'')
             | Some path \<Rightarrow>
                 (let pieces = split_slash path
                  in if length pieces \<le> 2
                     then Inl (TypeError ''Cannot read property toLowerCase of undefined'')
                     else Inr (toLowerCase (pieces ! 2) \<in> set ol)))
          else Inr True)"

text \<open>
  \<open>queue\<close>: what it returns is the empty array for a filtered request and the promise
  of \<open>queues.push\<close> otherwise.
\<close>

datatype queue_return = EmptyArray | PushPromise promise

definition queue :: "env \<Rightarrow> request \<Rightarrow> string \<Rightarrow> (error + queue_return) \<times> event list" where
  "queue env r name =
     (if \<not> truthy (url r) \<or> \<not> truthy (rtype r) then
        (Inl (Error (''Attempt to queue malformed request '' @ toString env r)),
         snd (queueDead env r))
      else
        (case shouldInclude env (the (rtype r)) (the (url r)) of
           Inl e \<Rightarrow> (Inl e, [])
         | Inr False \<Rightarrow> (Inr EmptyArray, [])
         | Inr True \<Rightarrow>
             (let queuable = createQueuable r
              in (Inr (PushPromise (push_result env [queuable] name)), [Push [queuable] name]))))"

text \<open>
  \<open>_requeue\<close>: the result is the error the returned promise rejects with, if any, the
  request as the call leaves it, and the events.
\<close>

definition requeue :: "env \<Rightarrow> request \<Rightarrow> error option \<times> request \<times> event list" where
  "requeue env r =
     (let r1 = r\<lparr>attemptCount := Some (or_default (attemptCount r) 0)\<rparr>;
          n = the (attemptCount r1) + 1;
          r2 = r1\<lparr>attemptCount := Some n\<rparr>
      in if n > 5 then
           (let (p, evs) = queueDead env r2 in (settled p, r2, evs))
         else
           (let r3 = addMeta [(''attempt'', n)] r2;
                queuable = createQueuable r3
            in (settled (repush_result env r3 queuable), r3, [Repush r3 queuable])))"

section \<open>Crawler: locks and completion\<close>

text \<open>
  A stage returns the error its promise rejects with (\<open>None\<close> when it is fulfilled),
  the request as the stage leaves it, and the events.
\<close>

type_synonym stage_result = "error option \<times> request \<times> event list"

text \<open>\<open>_acquireLock\<close>: both handlers of the lock promise return the request.\<close>

definition acquireLock :: "env \<Rightarrow> request \<Rightarrow> stage_result" where
  "acquireLock env r =
     (if \<not> truthy (url r) \<or> \<not> has_locker env then (None, r, [])
      else
        (let u = the (url r); ttl = or_default (processingTtl env) (60 * 1000)
         in case lock_result env u ttl of
              Inr l \<Rightarrow> (None, r\<lparr>lock := Some l\<rparr>, [Lock u ttl])
            | Inl e \<Rightarrow>
                if startsWith (message e) ''Exceeded''
                then (None, markRequeue ''Requeued'' (Some (Text ''Could not lock'')) r, [Lock u ttl])
                else (None, markRequeue ''Error'' (Some (Err e)) r, [Lock u ttl])))"

text \<open>
  \<open>_releaseLock\<close>: the handler of a failed unlock clears the lock, logs the error and
  returns the request, as the handler of a successful one does.
\<close>

definition releaseLock :: "env \<Rightarrow> request \<Rightarrow> stage_result" where
  "releaseLock env r =
     (case lock r of
        None \<Rightarrow> (None, r, [])
      | Some l \<Rightarrow>
          if \<not> has_locker env then (None, r, [])
          else (case unlock_result env l of
                  Resolved \<Rightarrow> (None, r\<lparr>lock := None\<rparr>, [Unlock l])
                | Rejected error \<Rightarrow> (None, r\<lparr>lock := None\<rparr>, [Unlock l])))"

definition deleteFromQueue :: "env \<Rightarrow> request \<Rightarrow> stage_result" where
  "deleteFromQueue env r = (settled (done_result env r), r, [Done r])"

definition abandonInQueue :: "env \<Rightarrow> request \<Rightarrow> stage_result" where
  "abandonInQueue env r = (settled (abandon_result env r), r, [Abandon r])"

text \<open>
  \<open>_completeRequest\<close>. On the requeue path \<open>finally\<close> runs \<open>_releaseLock\<close> whatever
  \<open>_requeue\<close> did and passes the outcome of \<open>_requeue\<close> on, unless the release itself
  rejects; the \<open>then\<close> after it deletes on fulfilment and abandons on rejection.
\<close>

function completeRequest :: "env \<Rightarrow> request \<Rightarrow> bool \<Rightarrow> stage_result" where
  "completeRequest env r forceRequeue =
     (if forceRequeue \<or> (shouldRequeue r \<and> truthy (url r)) then
        (case requeue env r of (e1, r1, ev1) \<Rightarrow>
         case releaseLock env r1 of (e2, r2, ev2) \<Rightarrow>
         case (case (case e2 of Some e \<Rightarrow> Some e | None \<Rightarrow> e1) of
                 None \<Rightarrow> deleteFromQueue env r2
               | Some error \<Rightarrow> abandonInQueue env r2) of (e3, r3, ev3) \<Rightarrow>
           (e3, r3, ev1 @ ev2 @ ev3))
      else
        (case Q_all (promises r) of
           None \<Rightarrow>
             (case releaseLock env r of (e2, r2, ev2) \<Rightarrow>
              case (case e2 of
                      None \<Rightarrow> deleteFromQueue env r2
                    | Some error \<Rightarrow> abandonInQueue env r2) of (e3, r3, ev3) \<Rightarrow>
                (e3, r3, ev2 @ ev3))
         | Some error \<Rightarrow> completeRequest env r True))"
  by pat_completeness auto
termination
  by (relation "measure (\<lambda>(env, r, forceRequeue). if forceRequeue then 0 else 1)") auto

declare completeRequest.simps [simp del]

section \<open>Processor\<close>

text \<open>The \<open>version\<close> field set by the constructor of \<open>Processor\<close>.\<close>

definition processor_version :: nat where
  "processor_version = 3"

text \<open>
  Modelled from the spec: the link helpers of \<open>Request\<close>. A link is a triple of
  relation name, kind and target (one URN or a list of URNs), kept in
  \<open>document._metadata.links\<close>; a document without \<open>_metadata\<close> makes the access throw.
\<close>

definition addLink :: "string \<Rightarrow> string \<Rightarrow> string list \<Rightarrow> request \<Rightarrow> error + request" where
  "addLink n kind targets r =
     (case document r of
        Some (ObjectDoc d) \<Rightarrow>
          (case metadata d of
             Some m \<Rightarrow>
               Inr (r\<lparr>document := Some (ObjectDoc (d\<lparr>metadata := Some
                      (m\<lparr>links := filter (\<lambda>l. fst l \<noteq> n) (links m) @ [(n, kind, targets)]\<rparr>)\<rparr>))\<rparr>)
           | None \<Rightarrow> Inl (TypeError ''Cannot read property links of undefined''))
      | _ \<Rightarrow> Inl (TypeError ''Cannot read property links of undefined''))"

definition linkResource :: "string \<Rightarrow> string list \<Rightarrow> request \<Rightarrow> error + request" where
  "linkResource n targets r = addLink n ''resource'' targets r"

definition linkSiblings :: "string \<Rightarrow> request \<Rightarrow> error + request" where
  "linkSiblings target r = addLink ''siblings'' ''siblings'' [target] r"

text \<open>The \<open>elements\<close> of the request's document; absent ones make \<open>map\<close> and \<open>forEach\<close> throw.\<close>

definition document_elements :: "request \<Rightarrow> error + element list" where
  "document_elements r =
     (case document r of
        Some (ObjectDoc d) \<Rightarrow>
          (case elements d of
             Some xs \<Rightarrow> Inr xs
           | None \<Rightarrow> Inl (TypeError ''Cannot read property forEach of undefined''))
      | _ \<Rightarrow> Inl (TypeError ''Cannot read property forEach of undefined''))"

text \<open>\<open>_processRelation\<close>, with the qualifier of the request's context.\<close>

definition processRelation ::
    "request \<Rightarrow> string option \<Rightarrow> string option \<Rightarrow> string option \<Rightarrow> string option \<Rightarrow> error + request" where
  "processRelation r q orig n t =
     (case linkResource ''origin'' [js_str q] r of
        Inl e \<Rightarrow> Inl e
      | Inr r1 \<Rightarrow>
     (case linkResource (js_str orig) [js_str q] r1 of
        Inl e \<Rightarrow> Inl e
      | Inr r2 \<Rightarrow>
     (case linkSiblings (js_str q @ '':'' @ js_str n @ '':pages'') r2 of
        Inl e \<Rightarrow> Inl e
      | Inr r3 \<Rightarrow>
     (case document_elements r3 of
        Inl e \<Rightarrow> Inl e
      | Inr xs \<Rightarrow>
          linkResource ''resources''
            (map (\<lambda>el. ''urn:'' @ js_str t @ '':'' @ js_str (e_id el)) xs) r3))))"

text \<open>
  The \<open>forEach\<close> of \<open>page\<close>: one \<open>queueCollectionElement\<close> per element; the promises it
  tracks are added to the request.
\<close>

fun queueElements ::
    "env \<Rightarrow> string option \<Rightarrow> string option \<Rightarrow> element list \<Rightarrow> request \<Rightarrow> request \<times> event list" where
  "queueElements env elementType q [] r = (r, [])"
| "queueElements env elementType q (item # items) r =
     (case queueCollectionElement env elementType (e_url item) q of (ps, evs) \<Rightarrow>
      case queueElements env elementType q items (r\<lparr>promises := promises r @ ps\<rparr>) of (r', evs') \<Rightarrow>
        (r', evs @ evs'))"

text \<open>
  \<open>page\<close>. The document it returns is the object the request holds, with the links
  added to it.
\<close>

definition page :: "env \<Rightarrow> string \<Rightarrow> handler" where
  "page env pg r =
     (case rcontext r of
        None \<Rightarrow> (Inl (TypeError ''Cannot read property qualifier of undefined''), r, [])
      | Some c \<Rightarrow>
     (case linkResource ''self''
             [js_str (qualifier c) @ '':'' @ js_str (rtype r) @ '':page:'' @ pg] r of
        Inl e \<Rightarrow> (Inl e, r, [])
      | Inr r1 \<Rightarrow>
     (case (case relation c of
              None \<Rightarrow> Inr r1
            | Some rel \<Rightarrow>
                processRelation r1 (qualifier c) (origin rel) (rel_name rel) (rel_type rel)) of
        Inl e \<Rightarrow> (Inl e, r1, [])
      | Inr r2 \<Rightarrow>
     (case document_elements r2 of
        Inl e \<Rightarrow> (Inl e, r2, [])
      | Inr xs \<Rightarrow>
     (case queueElements env (getCollectionType env r2) (qualifier c) xs r2 of (r3, evs) \<Rightarrow>
     (case document r3 of
        Some (ObjectDoc d) \<Rightarrow> (Inr d, r3, evs)
      | _ \<Rightarrow> (Inl (TypeError ''Cannot read property elements of undefined''), r3, evs)))))))"

text \<open>The link header of the response, \<open>null\<close> without a response or without headers.\<close>

definition linkHeader :: "request \<Rightarrow> string option" where
  "linkHeader r =
     (case response r of
        None \<Rightarrow> None
      | Some resp \<Rightarrow> (case headers resp of None \<Rightarrow> None | Some h \<Rightarrow> h_link h))"

text \<open>The request that \<open>collection\<close> builds for page \<open>i\<close>.\<close>

definition pageRequest :: "request \<Rightarrow> req_context \<Rightarrow> int \<Rightarrow> request" where
  "pageRequest r c i =
     (new_Request (rtype r)
        (Some (js_str (url r) @ ''?page='' @ int_toString i @ ''&per_page=100'')) None)
       \<lparr>policy := policy r,
        rcontext := Some \<lparr>qualifier = qualifier c, relation = None, extras = []\<rparr>\<rparr>"

text \<open>
  \<open>collection\<close>: with a link header, the requests for the pages 2 to \<open>links.last.page\<close>
  go to the \<open>soon\<close> queue in one push, whose promise the request tracks; the rest of
  the request is processed as page 1.
\<close>

definition collection :: "env \<Rightarrow> handler" where
  "collection env r =
     (if truthy (linkHeader r) then
        (case parse env (the (linkHeader r)) of
           None \<Rightarrow> (Inl (TypeError ''Cannot read property last of null''), r, [])
         | Some lnks \<Rightarrow>
        (case last_rel lnks of
           None \<Rightarrow> (Inl (TypeError ''Cannot read property page of undefined''), r, [])
         | Some lastRel \<Rightarrow>
             (let pages = (case rel_page lastRel of None \<Rightarrow> [] | Some l \<Rightarrow> [2..l])
              in if pages \<noteq> [] \<and> rcontext r = None
                 then (Inl (TypeError ''Cannot read property qualifier of undefined''), r, [])
                 else
                   (let requests = map (pageRequest r (the (rcontext r))) pages;
                        r1 = track (push_result env requests ''soon'') r
                    in case page env ''1'' r1 of (res, r2, evs) \<Rightarrow>
                         (res, r2, Push requests ''soon'' # evs)))))
      else page env ''1'' r)"

text \<open>
  \<open>_getHandler\<close>: a url with a \<open>page\<close> query goes to \<open>page\<close>, a collection type to
  \<open>collection\<close>, anything else to the method named by the type of the request.
\<close>

definition getHandler :: "env \<Rightarrow> request \<Rightarrow> error + handler option" where
  "getHandler env r =
     (case url r of
        None \<Rightarrow> Inl (TypeError ''Parameter url must be a string'')
      | Some u \<Rightarrow>
          if truthy (url_query_page env u) then Inr (Some (page env (the (url_query_page env u))))
          else if truthy (getCollectionType env r) then Inr (Some (collection env))
          else (case rtype r of None \<Rightarrow> Inr None | Some t \<Rightarrow> Inr (handlers env t)))"

text \<open>
  \<open>process\<close>: returns the document for \<open>request.document\<close>. Without a handler, or when
  the policy excludes the request, that is the document the request has; otherwise it is
  the result of the handler with the processor's version written into its \<open>_metadata\<close>.
\<close>

definition process :: "env \<Rightarrow> request \<Rightarrow> (error + payload option) \<times> request \<times> event list" where
  "process env r =
     (case getHandler env r of
        Inl e \<Rightarrow> (Inl e, r, [])
      | Inr None \<Rightarrow>
          (let r1 = markSkip ''Skip''
                      (Some (Text (''No handler found for request type: '' @ js_str (rtype r)))) r
           in (Inr (document r1), r1, []))
      | Inr (Some h) \<Rightarrow>
          if \<not> shouldProcess env r processor_version then
            (let r1 = markSkip ''Excluded''
                        (Some (Text ''Traversal policy excluded this resource'')) r
             in (Inr (document r1), r1, []))
          else
            (case h r of
               (Inl e, r1, evs) \<Rightarrow> (Inl e, r1, evs)
             | (Inr result, r1, evs) \<Rightarrow>
                 (case metadata result of
                    None \<Rightarrow> (Inl (TypeError ''Cannot set property version of undefined''), r1, evs)
                  | Some m \<Rightarrow>
                      (Inr (Some (ObjectDoc
                              (result\<lparr>metadata := Some (m\<lparr>version := Some processor_version\<rparr>)\<rparr>))),
                       r1, evs))))"

section \<open>Crawler: the stages of one cycle\<close>

text \<open>
  \<open>_getRequestWork\<close>: pops a request, or makes the \<open>_blank\<close> one when the queues have
  nothing, stamps it, puts it into \<open>requestBox[0]\<close> and acquires the lock. The result
  has the box; when the pop fails the box stays empty.
\<close>

definition getRequestWork ::
    "env \<Rightarrow> string \<Rightarrow> error option \<times> request option \<times> event list" where
  "getRequestWork env loop =
     (case pop_result env of
        Inl e \<Rightarrow> (Some e, None, [Pop])
      | Inr popped \<Rightarrow>
          (let r0 = (case popped of
                       Some r \<Rightarrow> r
                     | None \<Rightarrow>
                         markSkip ''Exhausted queue'' (Some (Text ''Waiting 2 seconds''))
                           (delay_request (now env) (Some (or_default (pollingDelay env) 2000))
                              (new_Request (Some ''_blank'') None None)));
               r1 = r0\<lparr>start := Some (now env), loopName := Some loop,
                       rcontext := Some (case rcontext r0 of None \<Rightarrow> empty_context | Some c \<Rightarrow> c),
                       promises := []\<rparr>
           in case acquireLock env r1 of (e, r2, evs) \<Rightarrow> (e, Some r2, Pop # evs)))"

text \<open>\<open>_filter\<close>. The promise of \<open>_queueDead\<close> is not awaited.\<close>

definition filter_request :: "env \<Rightarrow> request \<Rightarrow> stage_result" where
  "filter_request env r =
     (if \<not> truthy (url r) \<or> \<not> truthy (rtype r) then
        (None,
         markSkip ''Error''
           (Some (Err (Error (''Detected malformed request '' @ toString env r)))) r,
         snd (queueDead env r))
      else
        (case shouldInclude env (the (rtype r)) (the (url r)) of
           Inl e \<Rightarrow> (Some e, r, [])
         | Inr True \<Rightarrow> (None, r, [])
         | Inr False \<Rightarrow> (None, markSkip ''Filtered'' None r, [])))"

text \<open>\<open>_fetch\<close>: the fetcher is a collaborator; it returns the request it was given.\<close>

definition fetch :: "env \<Rightarrow> request \<Rightarrow> stage_result" where
  "fetch env r =
     (if shouldSkip r then (None, r, [])
      else (case fetch_result env r of (e, r') \<Rightarrow> (e, r', [Fetch r])))"

text \<open>\<open>Object.assign(metadata, template)\<close>: the entries of the template win.\<close>

definition overlay :: "metadataTemplate option \<Rightarrow> metadata \<Rightarrow> metadata" where
  "overlay t m =
     (case t of
        None \<Rightarrow> m
      | Some tp \<Rightarrow>
          \<lparr>m_type = (case t_type tp of None \<Rightarrow> m_type m | Some v \<Rightarrow> Some v),
           m_url = (case t_url tp of None \<Rightarrow> m_url m | Some v \<Rightarrow> Some v),
           fetchedAt = (case t_fetchedAt tp of None \<Rightarrow> fetchedAt m | Some v \<Rightarrow> Some v),
           etag = (case t_etag tp of None \<Rightarrow> etag m | Some v \<Rightarrow> Some v),
           links = (case t_links tp of None \<Rightarrow> links m | Some v \<Rightarrow> v),
           headers_link = (case t_headers_link tp of None \<Rightarrow> headers_link m | Some v \<Rightarrow> Some v),
           version = (case t_version tp of None \<Rightarrow> version m | Some v \<Rightarrow> Some v)\<rparr>)"

text \<open>\<open>_convertToDocument\<close>: an array is wrapped as \<open>{elements}\<close>; then \<open>_metadata\<close> is set.\<close>

definition convertToDocument :: "env \<Rightarrow> request \<Rightarrow> stage_result" where
  "convertToDocument env r =
     (if shouldSkip r then (None, r, [])
      else
        (let m0 = \<lparr>m_type = rtype r, m_url = url r, fetchedAt = Some (utc_now env),
                   etag = None, links = [], headers_link = None, version = None\<rparr>
         in case response r of
              None \<Rightarrow> (Some (TypeError ''Cannot read property _metadataTemplate of undefined''), r, [])
            | Some resp \<Rightarrow>
                (let m1 = (case headers resp of
                             None \<Rightarrow> m0
                           | Some h \<Rightarrow>
                               m0\<lparr>etag := (if truthy (h_etag h) then h_etag h else None),
                                  headers_link := (if truthy (h_link h) then h_link h else None)\<rparr>);
                     m2 = overlay (template resp) m1
                 in case document r of
                      None \<Rightarrow> (Some (TypeError ''Cannot set property _metadata of undefined''), r, [])
                    | Some (ArrayDoc xs) \<Rightarrow>
                        (None,
                         r\<lparr>document := Some (ObjectDoc
                              \<lparr>body = [], elements = Some xs, metadata = Some m2\<rparr>)\<rparr>, [])
                    | Some (ObjectDoc d) \<Rightarrow>
                        (None, r\<lparr>document := Some (ObjectDoc (d\<lparr>metadata := Some m2\<rparr>))\<rparr>, []))))"

text \<open>\<open>_processDocument\<close>.\<close>

definition processDocument :: "env \<Rightarrow> request \<Rightarrow> stage_result" where
  "processDocument env r =
     (if shouldSkip r then (None, r, [])
      else (case process env r of
              (Inl e, r1, evs) \<Rightarrow> (Some e, r1, evs)
            | (Inr doc, r1, evs) \<Rightarrow> (None, r1\<lparr>document := doc\<rparr>, evs)))"

text \<open>\<open>_storeDocument\<close>.\<close>

definition storeDocument :: "env \<Rightarrow> request \<Rightarrow> stage_result" where
  "storeDocument env r =
     (if shouldSkip r \<or> \<not> shouldSave env r then (None, r, [])
      else (case upsert_result env (document r) of
              Inl e \<Rightarrow> (Some e, r, [Upsert (document r)])
            | Inr u \<Rightarrow>
                (None, addMeta [(''store'', store_ms env)] (r\<lparr>upsert := Some u\<rparr>),
                 [Upsert (document r)])))"

text \<open>
  \<open>_errorHandler\<close>, given \<open>requestBox[0]\<close>: the request of the cycle marked for requeue, or
  a new \<open>_errorTrap\<close> request when there is none yet.
\<close>

definition errorHandler :: "env \<Rightarrow> request option \<Rightarrow> error \<Rightarrow> request" where
  "errorHandler env box e =
     (case box of
        Some r \<Rightarrow>
          if rtype r = Some ''_errorTrap'' then r
          else markRequeue ''Error'' (Some (Err e)) r
      | None \<Rightarrow>
          markSkip ''Error'' (Some (Err e))
            (delay_request (now env) None (new_Request (Some ''_errorTrap'') None None)))"

text \<open>\<open>_logOutcome\<close>: logs; reading the short form of a missing policy throws.\<close>

definition logOutcome :: "env \<Rightarrow> request \<Rightarrow> stage_result" where
  "logOutcome env r =
     (let oc = (if truthy (outcome r) then the (outcome r) else ''Processed'')
      in if oc = ''Error'' then (None, r, [])
         else
           (let r1 = addMeta [(''time'', time_ms env)] r
            in case policy r1 of
                 None \<Rightarrow> (Some (TypeError ''Cannot read property getShortForm of undefined''), r1, [])
               | Some p \<Rightarrow> (None, r1, [])))"

text \<open>\<open>promise.then(stage)\<close>: the next stage runs on the request of a fulfilled one.\<close>

definition then_stage ::
    "(request \<Rightarrow> stage_result) \<Rightarrow> (request \<Rightarrow> stage_result) \<Rightarrow> request \<Rightarrow> stage_result" where
  "then_stage f g r =
     (case f r of
        (Some e, r1, evs) \<Rightarrow> (Some e, r1, evs)
      | (None, r1, evs) \<Rightarrow> (case g r1 of (e2, r2, evs2) \<Rightarrow> (e2, r2, evs @ evs2)))"

text \<open>\<open>promise.catch(_errorHandler)\<close> on the request of the cycle.\<close>

definition catch_stage :: "env \<Rightarrow> stage_result \<Rightarrow> request \<times> event list" where
  "catch_stage env res =
     (case res of
        (None, r, evs) \<Rightarrow> (r, evs)
      | (Some e, r, evs) \<Rightarrow> (errorHandler env (Some r) e, evs))"

text \<open>\<open>processOne\<close>: the request the cycle ends with and the events of the cycle.\<close>

definition processOne :: "env \<Rightarrow> string \<Rightarrow> request \<times> event list" where
  "processOne env loop =
     (case (case getRequestWork env loop of
              (Some e, box, evs0) \<Rightarrow> (errorHandler env box e, evs0)
            | (None, None, evs0) \<Rightarrow>
                (errorHandler env None (TypeError ''Cannot read property url of undefined''), evs0)
            | (None, Some r, evs0) \<Rightarrow>
                (case catch_stage env
                        (then_stage (filter_request env)
                          (then_stage (fetch env)
                            (then_stage (convertToDocument env)
                              (then_stage (processDocument env) (storeDocument env)))) r) of
                   (r1, evs1) \<Rightarrow> (r1, evs0 @ evs1))) of (r1, evs1) \<Rightarrow>
      case catch_stage env (completeRequest env r1 False) of (r2, evs2) \<Rightarrow>
      case catch_stage env (logOutcome env r2) of (r3, evs3) \<Rightarrow>
        (r3, evs1 @ evs2 @ evs3))"

section \<open>Crawler: the worker loop\<close>

text \<open>
  The context of a loop (the \<open>options\<close> of a \<open>CrawlerLoop\<close>): its name, \<open>delay\<close>,
  \<open>currentDelay\<close> (unset at first) and whether a \<open>done\<close> callback is set.
\<close>

record loop_context =
  loop_name :: string
  delay :: int
  currentDelay :: "int option"
  hasDone :: bool

text \<open>
  Where the loop of \<open>run\<close> and \<open>_run\<close> stands: not started, its timer pending (set
  with \<open>timer\<close> ms), a cycle (\<open>processOne\<close>) in flight, or returned for good.
  \<open>doneCalls\<close> counts the calls of the \<open>done\<close> callback, \<open>cycles\<close> the cycles begun.
\<close>

datatype phase = Idle | Sleeping | Cycling | Finished

record worker =
  ctx :: loop_context
  phase :: phase
  timer :: "int option"
  doneCalls :: nat
  cycles :: nat

text \<open>\<open>context.done ? context.done() : null\<close>, after which the loop does not continue.\<close>

definition call_done :: "worker \<Rightarrow> worker" where
  "call_done w =
     w\<lparr>doneCalls := (if hasDone (ctx w) then Suc (doneCalls w) else doneCalls w),
       phase := Finished\<rparr>"

text \<open>\<open>run\<close>: done when the delay is -1; otherwise it sets the timer for \<open>_run\<close>.\<close>

definition run :: "worker \<Rightarrow> worker" where
  "run w =
     (if delay (ctx w) = - 1 then call_done w
      else w\<lparr>ctx := (ctx w)\<lparr>currentDelay := Some 0\<rparr>, phase := Sleeping,
             timer := currentDelay (ctx w)\<rparr>)"

text \<open>\<open>_computeDelay\<close>, at time \<open>t\<close>, for the request the cycle ended with.\<close>

definition computeDelay :: "int \<Rightarrow> loop_context \<Rightarrow> request \<Rightarrow> loop_context" where
  "computeDelay t c r =
     (if delay c = - 1 then c
      else
        (let contextGate = t + delay c;
             requestGate = or_default (nextRequestTime r) t;
             nextTime = max (max contextGate requestGate) t
         in c\<lparr>currentDelay := Some (max 0 (nextTime - t))\<rparr>))"

text \<open>\<open>_run\<close>, when the timer fires: done when the delay is -1; otherwise a cycle begins.\<close>

definition wake :: "worker \<Rightarrow> worker" where
  "wake w =
     (if delay (ctx w) = - 1 then call_done w
      else w\<lparr>cycles := Suc (cycles w), phase := Cycling\<rparr>)"

text \<open>
  The end of the cycle begun by \<open>_run\<close>: \<open>_computeDelay\<close> on its request, or \<open>_panic\<close>
  (which logs) on an error, and finally \<open>run\<close>.
\<close>

definition cycle_end :: "int \<Rightarrow> error + request \<Rightarrow> worker \<Rightarrow> worker" where
  "cycle_end t res w =
     (case res of
        Inr r \<Rightarrow> run (w\<lparr>ctx := computeDelay t (ctx w) r\<rparr>)
      | Inl e \<Rightarrow> run w)"

text \<open>
  One step of a loop: its timer fires, or its cycle ends at the given time with the
  given result. A loop that was not started or has returned takes no step.
\<close>

definition loop_step :: "int \<times> (error + request) \<Rightarrow> worker \<Rightarrow> worker" where
  "loop_step inp w =
     (case phase w of
        Idle \<Rightarrow> w
      | Sleeping \<Rightarrow> wake w
      | Cycling \<Rightarrow> cycle_end (fst inp) (snd inp) w
      | Finished \<Rightarrow> w)"

fun loop_steps :: "(int \<times> (error + request)) list \<Rightarrow> worker \<Rightarrow> worker" where
  "loop_steps [] w = w"
| "loop_steps (inp # inps) w = loop_steps inps (loop_step inp w)"

text \<open>Writing the \<open>delay\<close> field of the context, as \<open>CrawlerLoop.stop\<close> does.\<close>

definition set_delay :: "int \<Rightarrow> worker \<Rightarrow> worker" where
  "set_delay d w = w\<lparr>ctx := (ctx w)\<lparr>delay := d\<rparr>\<rparr>"

section \<open>CrawlerLoop and CrawlerService\<close>

text \<open>
  A \<open>CrawlerLoop\<close>: its \<open>state\<close> (\<open>null\<close> at first) and the loop of the crawler on its
  \<open>options\<close>.
\<close>

datatype loop_state = Running | Stopping | Stopped

record crawlerLoop =
  worker :: worker
  state :: "loop_state option"

definition options :: "crawlerLoop \<Rightarrow> loop_context" where
  "options l = ctx (worker l)"

text \<open>\<open>new CrawlerLoop(crawler, name)\<close>.\<close>

definition new_CrawlerLoop :: "string \<Rightarrow> crawlerLoop" where
  "new_CrawlerLoop n =
     \<lparr>worker = \<lparr>ctx = \<lparr>loop_name = n, delay = 0, currentDelay = None, hasDone = False\<rparr>,
                 phase = Idle, timer = None, doneCalls = 0, cycles = 0\<rparr>,
      state = None\<rparr>"

definition running :: "crawlerLoop \<Rightarrow> bool" where
  "running l = (state l = Some Running)"

text \<open>
  \<open>CrawlerLoop.run\<close>: throws on a loop that was run before; otherwise it sets the state
  and the \<open>done\<close> callback and kicks off the loop with \<open>crawler.run(options)\<close>.
\<close>

definition loop_run :: "crawlerLoop \<Rightarrow> error + crawlerLoop" where
  "loop_run l =
     (if state l \<noteq> None
      then Inl (Error (''Loop '' @ loop_name (options l) @ '' can only be run once''))
      else Inr (l\<lparr>state := Some Running,
                  worker := run ((worker l)\<lparr>ctx := (ctx (worker l))\<lparr>hasDone := True\<rparr>\<rparr>)\<rparr>))"

text \<open>\<open>CrawlerLoop.stop\<close>.\<close>

definition stop :: "crawlerLoop \<Rightarrow> crawlerLoop" where
  "stop l =
     (if state l = Some Stopped \<or> state l = Some Stopping then l
      else l\<lparr>state := Some Stopping, worker := set_delay (- 1) (worker l)\<rparr>)"

record service =
  loops :: "crawlerLoop list"
  count :: int

text \<open>
  \<open>status\<close>: the reduce adds 1 for every loop whose \<open>running\<close> property is truthy;
  the property is the method, which every loop has.
\<close>

definition status :: "crawlerLoop list \<Rightarrow> int" where
  "status ls = foldl (\<lambda>n l. n + (if True then 1 else 0)) 0 ls"

text \<open>
  The loop of \<open>ensureLoops\<close> for a negative delta: each round takes the first loop off
  the array with \<open>shift\<close> and stops it; on an empty array \<open>shift\<close> gives \<open>undefined\<close> and
  the call of \<open>stop\<close> throws. The result has the loops that remain and the stopped ones.
\<close>

fun shift_and_stop ::
    "nat \<Rightarrow> crawlerLoop list \<Rightarrow> crawlerLoop list \<Rightarrow> error + crawlerLoop list \<times> crawlerLoop list" where
  "shift_and_stop 0 ls stopped = Inr (ls, stopped)"
| "shift_and_stop (Suc n) [] stopped = Inl (TypeError ''Cannot read property stop of undefined'')"
| "shift_and_stop (Suc n) (l # ls) stopped = shift_and_stop n ls (stopped @ [stop l])"

text \<open>The loop for a delta that is not negative: new loops named 0, 1, ... are run and pushed.\<close>

fun spawn_loops :: "nat \<Rightarrow> nat \<Rightarrow> crawlerLoop list \<Rightarrow> error + crawlerLoop list" where
  "spawn_loops i 0 ls = Inr ls"
| "spawn_loops i (Suc n) ls =
     (case loop_run (new_CrawlerLoop (int_toString (int i))) of
        Inl e \<Rightarrow> Inl e
      | Inr l \<Rightarrow> spawn_loops (Suc i) n (ls @ [l]))"

text \<open>
  \<open>ensureLoops\<close>: the service as it leaves it, and the loops it stopped, in the order
  of the calls.
\<close>

definition ensureLoops :: "service \<Rightarrow> error + service \<times> crawlerLoop list" where
  "ensureLoops s =
     (let ls = filter running (loops s);
          running_count = status ls;
          delta = count s - running_count
      in if delta < 0 then
           (case shift_and_stop (nat (abs delta)) ls [] of
              Inl e \<Rightarrow> Inl e
            | Inr (rest, stopped) \<Rightarrow> Inr (s\<lparr>loops := rest\<rparr>, stopped))
         else
           (case spawn_loops 0 (nat delta) ls of
              Inl e \<Rightarrow> Inl e
            | Inr ls' \<Rightarrow> Inr (s\<lparr>loops := ls'\<rparr>, [])))"

section \<open>Properties of event sequences\<close>

fun is_lock_op :: "event \<Rightarrow> bool" where
  "is_lock_op (Lock u t) = True"
| "is_lock_op (Unlock l) = True"
| "is_lock_op e = False"

fun is_unlock :: "event \<Rightarrow> bool" where
  "is_unlock (Unlock l) = True"
| "is_unlock e = False"

fun is_store_op :: "event \<Rightarrow> bool" where
  "is_store_op (Upsert d) = True"
| "is_store_op e = False"

fun is_push :: "event \<Rightarrow> bool" where
  "is_push (Push rs n) = True"
| "is_push e = False"

fun is_repush :: "event \<Rightarrow> bool" where
  "is_repush (Repush r q) = True"
| "is_repush e = False"

fun is_pushDead :: "event \<Rightarrow> bool" where
  "is_pushDead (PushDead q) = True"
| "is_pushDead e = False"

fun is_done :: "event \<Rightarrow> bool" where
  "is_done (Done r) = True"
| "is_done e = False"

fun is_abandon :: "event \<Rightarrow> bool" where
  "is_abandon (Abandon r) = True"
| "is_abandon e = False"

text \<open>No unlock comes after an acknowledgement (\<open>done\<close>) or an abandon.\<close>

fun release_before_ack :: "event list \<Rightarrow> bool" where
  "release_before_ack [] = True"
| "release_before_ack (e # es) =
     ((if is_done e \<or> is_abandon e then list_all (\<lambda>x. \<not> is_unlock x) es else True)
      \<and> release_before_ack es)"

text \<open>The events of \<open>_releaseLock\<close>: one unlock when a lock is held and a locker is set.\<close>

definition release_events :: "env \<Rightarrow> request \<Rightarrow> event list" where
  "release_events env r =
     (case lock r of None \<Rightarrow> [] | Some l \<Rightarrow> if has_locker env then [Unlock l] else [])"

text \<open>\<open>_metadata.version\<close> of what is given to the store, if it has one.\<close>

definition payload_version :: "payload option \<Rightarrow> nat option" where
  "payload_version p =
     (case p of
        Some (ObjectDoc d) \<Rightarrow> (case metadata d of None \<Rightarrow> None | Some m \<Rightarrow> version m)
      | _ \<Rightarrow> None)"

section \<open>Example inputs\<close>

text \<open>
  Collaborators that succeed at everything, over empty queues, with a lock service and
  no org list. The path of a url is what follows the 23 characters of
  \<open>https://api.example.com\<close>.
\<close>

definition env0 :: env where
  "env0 =
     \<lparr>pollingDelay = None, processingTtl = None, orgList = None, has_locker = True,
      now = 1000, store_ms = 3, time_ms = 7,
      pop_result = Inr None,
      lock_result = (\<lambda>u t. Inr ''lease1''),
      unlock_result = (\<lambda>l. Resolved),
      fetch_result = (\<lambda>r. (None, r)),
      upsert_result = (\<lambda>d. Inr ''upserted''),
      push_result = (\<lambda>rs n. Resolved),
      repush_result = (\<lambda>r q. Resolved),
      pushDead_result = (\<lambda>q. Resolved),
      done_result = (\<lambda>r. Resolved),
      abandon_result = (\<lambda>r. Resolved),
      url_path = (\<lambda>u. Some (drop 23 u)),
      url_query_page = (\<lambda>u. None),
      toString = (\<lambda>r. js_str (rtype r) @ ''@'' @ js_str (url r)),
      shouldSave = (\<lambda>r. True),
      getCollectionType = (\<lambda>r. None),
      shouldProcess = (\<lambda>r v. True),
      queueCollectionElement = (\<lambda>t u q. ([], [])),
      parse = (\<lambda>h. None),
      handlers = (\<lambda>t. None),
      utc_now = ''2016-11-01T00:00:00.000Z''\<rparr>"

text \<open>A repo request as it comes off a queue, and the same holding a lock.\<close>

definition r_repo :: request where
  "r_repo =
     new_Request (Some ''repo'') (Some ''https://api.example.com/repos/acme/widget'')
       (Some empty_context)"

definition r_locked :: request where
  "r_locked = r_repo\<lparr>lock := Some ''lease1''\<rparr>"

text \<open>Collaborators whose unlock fails, whose repush fails, whose lock fails.\<close>

definition env_unlock_fails :: env where
  "env_unlock_fails = env0\<lparr>unlock_result := (\<lambda>l. Rejected (Error ''unlock failed''))\<rparr>"

definition env_repush_fails :: env where
  "env_repush_fails = env0\<lparr>repush_result := (\<lambda>r q. Rejected (Error ''broker down''))\<rparr>"

definition env_lock_exceeded :: env where
  "env_lock_exceeded =
     env0\<lparr>lock_result := (\<lambda>u t. Inl (Error ''Exceeded the number of attempts to lock''))\<rparr>"

definition env_lock_broken :: env where
  "env_lock_broken = env0\<lparr>lock_result := (\<lambda>u t. Inl (Error ''ECONNREFUSED''))\<rparr>"

text \<open>An org list that does not have the org of \<open>r_repo\<close>.\<close>

definition env_orgs :: env where
  "env_orgs = env0\<lparr>orgList := Some [''contoso'']\<rparr>"

text \<open>
  Requests: with a rejected side-effect promise, marked for requeue, without a url,
  and after five attempts.
\<close>

definition r_rejected :: request where
  "r_rejected = r_locked\<lparr>promises := [Resolved, Rejected (Error ''push failed'')]\<rparr>"

definition r_requeue :: request where
  "r_requeue = markRequeue ''Error'' (Some (Err (Error ''Code: 500''))) r_locked"

definition r_nourl :: request where
  "r_nourl = new_Request (Some ''repo'') None None"

definition r_fifth :: request where
  "r_fifth = r_repo\<lparr>attemptCount := Some 5\<rparr>"

text \<open>
  A converted repo document held by the locked request, and a processor whose \<open>repo\<close>
  handler returns the document of the request.
\<close>

definition m_fresh :: metadata where
  "m_fresh =
     \<lparr>m_type = Some ''repo'', m_url = Some ''https://api.example.com/repos/acme/widget'',
      fetchedAt = Some ''2016-11-01T00:00:00.000Z'', etag = Some ''abc'', links = [],
      headers_link = None, version = None\<rparr>"

definition d_repo :: document where
  "d_repo = \<lparr>body = [(''id'', ''42'')], elements = None, metadata = Some m_fresh\<rparr>"

definition r_converted :: request where
  "r_converted = r_locked\<lparr>document := Some (ObjectDoc d_repo)\<rparr>"

definition h_document :: handler where
  "h_document r =
     (case document r of
        Some (ObjectDoc d) \<Rightarrow> (Inr d, r, [])
      | _ \<Rightarrow> (Inl (TypeError ''Cannot read property owner of undefined''), r, []))"

definition env_repo :: env where
  "env_repo = env0\<lparr>handlers := (\<lambda>t. if t = ''repo'' then Some h_document else None)\<rparr>"

text \<open>
  A collection request for the issues of a repo, holding a lock, whose response has a
  link header and whose document has two elements.
\<close>

definition resp_issues :: response where
  "resp_issues =
     \<lparr>headers = Some \<lparr>h_etag = None,
        h_link = Some ''<https://api.example.com/repos/acme/widget/issues?page=7>; rel=last''\<rparr>,
      template = None\<rparr>"

definition c_repo :: req_context where
  "c_repo =
     \<lparr>qualifier = Some ''urn:repo:42'', relation = None, extras = [(''history'', ''repo'')]\<rparr>"

definition issue_elements :: "element list" where
  "issue_elements =
     [\<lparr>e_url = Some ''https://api.example.com/repos/acme/widget/issues/1'', e_id = Some ''101''\<rparr>,
      \<lparr>e_url = Some ''https://api.example.com/repos/acme/widget/issues/2'', e_id = Some ''102''\<rparr>]"

definition m_issues :: metadata where
  "m_issues =
     \<lparr>m_type = Some ''issues'', m_url = None, fetchedAt = None, etag = None, links = [],
      headers_link = None, version = None\<rparr>"

definition r_issues :: request where
  "r_issues =
     (new_Request (Some ''issues'') (Some ''https://api.example.com/repos/acme/widget/issues'')
        (Some c_repo))
       \<lparr>policy := Some (Policy ''reprocess''), response := Some resp_issues,
        lock := Some ''lease1'',
        document := Some (ObjectDoc
          \<lparr>body = [], elements = Some issue_elements, metadata = Some m_issues\<rparr>)\<rparr>"

text \<open>
  The same request with a relation in its context: the collaborators of the repo.
\<close>

definition r_related :: request where
  "r_related =
     r_issues\<lparr>rcontext := Some (c_repo\<lparr>relation := Some
        \<lparr>origin = Some ''repo'', rel_name = Some ''collaborators'',
         rel_type = Some ''user''\<rparr>\<rparr>)\<rparr>"

text \<open>
  A link parser that finds the last page to be 7, over a \<open>Request\<close> that queues each
  element of a collection as one push onto the normal queue.
\<close>

definition env_link :: env where
  "env_link =
     env0\<lparr>parse := (\<lambda>h. Some \<lparr>last_rel = Some \<lparr>rel_page = Some 7\<rparr>\<rparr>),
       getCollectionType := (\<lambda>r. if rtype r = Some ''issues'' then Some ''issue'' else None),
       queueCollectionElement := (\<lambda>t u q. ([Resolved],
          [Push [new_Request t u (Some \<lparr>qualifier = q, relation = None, extras = []\<rparr>)]
             ''normal'']))\<rparr>"

text \<open>
  What is expected of \<open>collection\<close> on these: the request for a page of the issues,
  the request for one issue, and the document with its link to page 1.
\<close>

definition issues_page :: "string \<Rightarrow> request" where
  "issues_page n =
     \<lparr>rtype = Some ''issues'',
      url = Some (''https://api.example.com/repos/acme/widget/issues?page='' @ n @ ''&per_page=100''),
      rcontext = Some \<lparr>qualifier = Some ''urn:repo:42'', relation = None, extras = []\<rparr>,
      policy = Some (Policy ''reprocess''), attemptCount = None, document = None,
      response = None, outcome = None, rmessage = None, control = None, meta = [],
      promises = [], lock = None, upsert = None, start = None, loopName = None,
      nextRequestTime = None\<rparr>"

definition issue_request :: "string \<Rightarrow> request" where
  "issue_request n =
     new_Request (Some ''issue'')
       (Some (''https://api.example.com/repos/acme/widget/issues/'' @ n))
       (Some \<lparr>qualifier = Some ''urn:repo:42'', relation = None, extras = []\<rparr>)"

definition d_issues_page1 :: document where
  "d_issues_page1 =
     \<lparr>body = [], elements = Some issue_elements,
      metadata = Some (m_issues\<lparr>links :=
        [(''self'', ''resource'', [''urn:repo:42:issues:page:1''])]\<rparr>)\<rparr>"

text \<open>A \<open>CrawlerLoop\<close> of the given name after its \<open>run\<close>: running, its first timer set.\<close>

definition running_loop :: "string \<Rightarrow> crawlerLoop" where
  "running_loop n =
     \<lparr>worker = \<lparr>ctx = \<lparr>loop_name = n, delay = 0, currentDelay = Some 0, hasDone = True\<rparr>,
                 phase = Sleeping, timer = None, doneCalls = 0, cycles = 0\<rparr>,
      state = Some Running\<rparr>"

text \<open>A service with three running loops and a count of 2, and one to grow to 4.\<close>

definition svc_shrink :: service where
  "svc_shrink =
     \<lparr>loops = [running_loop ''a'', running_loop ''b'', running_loop ''c''], count = 2\<rparr>"

definition svc_grow :: service where
  "svc_grow =
     \<lparr>loops = [running_loop ''a'', stop (running_loop ''b''), running_loop ''c''], count = 4\<rparr>"

text \<open>The loop of \<open>run\<close> in the middle of its fifth cycle.\<close>

definition w_cycling :: worker where
  "w_cycling = (worker (running_loop ''0''))\<lparr>phase := Cycling, cycles := 4\<rparr>"

text \<open>
  Collaborators for whole cycles on the repo request: the fetcher delivers the repo
  with an etag, or fails; the lock is contended.
\<close>

definition resp_repo :: response where
  "resp_repo = \<lparr>headers = Some \<lparr>h_etag = Some ''abc'', h_link = None\<rparr>, template = None\<rparr>"

definition env_cycle :: env where
  "env_cycle =
     env_repo\<lparr>pop_result := Inr (Some (r_repo\<lparr>rcontext := None\<rparr>)),
       fetch_result := (\<lambda>r. (None,
          r\<lparr>document := Some (ObjectDoc
               \<lparr>body = [(''id'', ''42'')], elements = None, metadata = None\<rparr>),
            response := Some resp_repo\<rparr>))\<rparr>"

definition env_fetch_fails :: env where
  "env_fetch_fails = env_cycle\<lparr>fetch_result := (\<lambda>r. (Some (Error ''Code: 500''), r))\<rparr>"

definition env_contended :: env where
  "env_contended = env_lock_exceeded\<lparr>pop_result := Inr (Some r_repo)\<rparr>"

section \<open>Completing a request\<close>

lemma releaseLock_never_rejects: "fst (releaseLock env r) = None"
  by (simp add: releaseLock_def split: option.splits promise.splits)

lemma releaseLock_events: "snd (snd (releaseLock env r)) = release_events env r"
  by (simp add: releaseLock_def release_events_def split: option.splits promise.splits)

lemma releaseLock_eq:
  "releaseLock env r = (None, fst (snd (releaseLock env r)), release_events env r)"
  using releaseLock_never_rejects [of env r] releaseLock_events [of env r]
  by (cases "releaseLock env r") simp

lemma releaseLock_unlocked: "lock r = None \<Longrightarrow> releaseLock env r = (None, r, [])"
  by (simp add: releaseLock_def)

lemma completeRequest_requeue_path:
  assumes "forceRequeue \<or> (shouldRequeue r \<and> truthy (url r))"
  shows "completeRequest env r forceRequeue =
     (let r1 = fst (snd (requeue env r));
          r2 = fst (snd (releaseLock env r1))
      in if fst (requeue env r) = None
         then (settled (done_result env r2), r2,
               snd (snd (requeue env r)) @ release_events env r1 @ [Done r2])
         else (settled (abandon_result env r2), r2,
               snd (snd (requeue env r)) @ release_events env r1 @ [Abandon r2]))"
proof -
  obtain e1 r1 ev1 where rq: "requeue env r = (e1, r1, ev1)"
    by (cases "requeue env r") auto
  obtain r2 where rl: "releaseLock env r1 = (None, r2, release_events env r1)"
    using releaseLock_eq [of env r1] by blast
  show ?thesis
    using assms
    by (subst completeRequest.simps)
       (simp add: rq rl deleteFromQueue_def abandonInQueue_def Let_def split: option.splits)
qed

lemma completeRequest_happy_path:
  assumes "\<not> (shouldRequeue r \<and> truthy (url r))" and "Q_all (promises r) = None"
  shows "completeRequest env r False =
     (let r2 = fst (snd (releaseLock env r))
      in (settled (done_result env r2), r2, release_events env r @ [Done r2]))"
proof -
  obtain r2 where rl: "releaseLock env r = (None, r2, release_events env r)"
    using releaseLock_eq [of env r] by blast
  from assms(1) have nr: "(shouldRequeue r \<and> truthy (url r)) = False" by simp
  show ?thesis
    by (subst completeRequest.simps)
       (simp add: nr assms(2) rl deleteFromQueue_def Let_def)
qed

lemma completeRequest_promise_rejected:
  assumes "\<not> (shouldRequeue r \<and> truthy (url r))" and "Q_all (promises r) \<noteq> None"
  shows "completeRequest env r False = completeRequest env r True"
proof -
  from assms(2) obtain e where qa: "Q_all (promises r) = Some e" by auto
  from assms(1) have nr: "(shouldRequeue r \<and> truthy (url r)) = False" by simp
  show ?thesis
    by (subst completeRequest.simps) (simp add: qa nr)
qed

lemma requeue_events_cases:
  "(\<exists>q. snd (snd (requeue env r)) = [PushDead q])
   \<or> (\<exists>orig q. snd (snd (requeue env r)) = [Repush orig q])"
  by (simp add: requeue_def queueDead_def Let_def split: prod.splits)

lemma release_before_ack_requeue_path:
  "release_before_ack (snd (snd (requeue env r)) @ release_events env r1 @ [Done r2])"
  "release_before_ack (snd (snd (requeue env r)) @ release_events env r1 @ [Abandon r2])"
  using requeue_events_cases [of env r]
  by (auto simp add: release_events_def split: option.splits)

lemma completeRequest_forced_order:
  "release_before_ack (snd (snd (completeRequest env r True)))"
  by (simp add: completeRequest_requeue_path Let_def release_before_ack_requeue_path)

text \<open>
  The order of the events of \<open>_completeRequest\<close>, as the code has it. Without a
  requeue and with every promise resolved, the events are the release and then \<open>done\<close>.
  When a promise rejects, completion is that of the requeue path with
  \<open>forceRequeue = true\<close>. On the requeue path the events are those of \<open>_requeue\<close>, then
  the release, then \<open>done\<close> when \<open>_requeue\<close> succeeded and \<open>abandon\<close> when it failed.
  No unlock comes after a \<open>done\<close> or an \<open>abandon\<close>.
\<close>

lemma completeRequest_event_order:
  "(\<not> (shouldRequeue r \<and> truthy (url r)) \<and> Q_all (promises r) = None \<longrightarrow>
        snd (snd (completeRequest env r False)) =
          release_events env r @ [Done (fst (snd (releaseLock env r)))])
   \<and> (\<not> (shouldRequeue r \<and> truthy (url r)) \<and> Q_all (promises r) \<noteq> None \<longrightarrow>
        completeRequest env r False = completeRequest env r True)
   \<and> (forceRequeue \<or> (shouldRequeue r \<and> truthy (url r)) \<longrightarrow>
        snd (snd (completeRequest env r forceRequeue)) =
          snd (snd (requeue env r)) @ release_events env (fst (snd (requeue env r))) @
          [if fst (requeue env r) = None
           then Done (fst (snd (releaseLock env (fst (snd (requeue env r))))))
           else Abandon (fst (snd (releaseLock env (fst (snd (requeue env r))))))])
   \<and> release_before_ack (snd (snd (completeRequest env r forceRequeue)))"
proof (intro conjI impI)
  assume "\<not> (shouldRequeue r \<and> truthy (url r)) \<and> Q_all (promises r) = None"
  then show "snd (snd (completeRequest env r False)) =
          release_events env r @ [Done (fst (snd (releaseLock env r)))]"
    by (simp add: completeRequest_happy_path Let_def)
next
  assume "\<not> (shouldRequeue r \<and> truthy (url r)) \<and> Q_all (promises r) \<noteq> None"
  then show "completeRequest env r False = completeRequest env r True"
    by (simp add: completeRequest_promise_rejected)
next
  assume "forceRequeue \<or> (shouldRequeue r \<and> truthy (url r))"
  then show "snd (snd (completeRequest env r forceRequeue)) =
          snd (snd (requeue env r)) @ release_events env (fst (snd (requeue env r))) @
          [if fst (requeue env r) = None
           then Done (fst (snd (releaseLock env (fst (snd (requeue env r))))))
           else Abandon (fst (snd (releaseLock env (fst (snd (requeue env r))))))]"
    by (simp add: completeRequest_requeue_path Let_def)
next
  show "release_before_ack (snd (snd (completeRequest env r forceRequeue)))"
  proof (cases "forceRequeue \<or> (shouldRequeue r \<and> truthy (url r))")
    case True
    then show ?thesis
      by (simp add: completeRequest_requeue_path Let_def release_before_ack_requeue_path)
  next
    case False
    then have f: "forceRequeue = False" and nr: "\<not> (shouldRequeue r \<and> truthy (url r))"
      by auto
    show ?thesis
    proof (cases "Q_all (promises r) = None")
      case True
      with nr show ?thesis
        by (simp add: f completeRequest_happy_path Let_def release_events_def
              split: option.splits)
    next
      case False
      with nr show ?thesis
        by (simp add: f completeRequest_promise_rejected completeRequest_forced_order)
    qed
  qed
qed

text \<open>
  The order at a locked request whose promises resolve, at one with a rejected promise,
  and at one marked for requeue, with a repush that succeeds and one that fails.
\<close>

lemma completeRequest_event_order_examples:
  "snd (snd (completeRequest env0 r_locked False)) = [Unlock ''lease1'', Done r_repo]
   \<and> Q_all (promises r_rejected) \<noteq> None
   \<and> completeRequest env0 r_rejected False = completeRequest env0 r_rejected True
   \<and> shouldRequeue r_requeue
   \<and> map is_repush (snd (snd (completeRequest env0 r_requeue False))) = [True, False, False]
   \<and> map is_unlock (snd (snd (completeRequest env0 r_requeue False))) = [False, True, False]
   \<and> map is_done (snd (snd (completeRequest env0 r_requeue False))) = [False, False, True]
   \<and> map is_abandon (snd (snd (completeRequest env_repush_fails r_requeue False)))
       = [False, False, True]
   \<and> release_before_ack (snd (snd (completeRequest env_repush_fails r_requeue False)))"
  using completeRequest_event_order [of r_locked env0 False]
    completeRequest_event_order [of r_rejected env0 False]
    completeRequest_event_order [of r_requeue env0 False]
    completeRequest_event_order [of r_requeue env_repush_fails False]
  by (simp add: env_repush_fails_def env0_def r_locked_def r_repo_def r_rejected_def r_requeue_def
        new_Request_def shouldRequeue_def markRequeue_def truthy_def
        releaseLock_def release_events_def requeue_def queueDead_def createQueuable_def
        addMeta_def or_default_def settled_def Let_def)

text \<open>
  C1. Both paths of \<open>_completeRequest\<close> are to release the lock before the request is
  acknowledged or abandoned, and on the happy path a release that fails is to lead to
  \<open>abandon\<close> in place of \<open>done\<close>: the comment of \<open>_completeRequest\<close> says so, and its
  happy path puts \<open>_abandonInQueue\<close> as the rejection handler on \<open>_releaseLock\<close>. The
  code does not do the second. \<open>_releaseLock\<close> turns a failed unlock into a fulfilled
  promise, so that handler never runs: for a request that holds a lease, is not marked
  for requeue and has no promise pending, with a locker whose unlock rejects,
  \<open>_completeRequest\<close> calls \<open>unlock\<close> and then \<open>done\<close>, and never \<open>abandon\<close>.
\<close>

theorem completeRequest_done_after_failed_unlock:
  "lock r_locked = Some ''lease1'' \<and> has_locker env_unlock_fails
   \<and> unlock_result env_unlock_fails ''lease1'' = Rejected (Error ''unlock failed'')
   \<and> Q_all (promises r_locked) = None \<and> \<not> shouldRequeue r_locked
   \<and> completeRequest env_unlock_fails r_locked False =
       (None, r_repo, [Unlock ''lease1'', Done r_repo])
   \<and> filter is_abandon (snd (snd (completeRequest env_unlock_fails r_locked False))) = []"
  by (simp add: completeRequest.simps env_unlock_fails_def env0_def r_locked_def r_repo_def
        new_Request_def shouldRequeue_def releaseLock_def deleteFromQueue_def settled_def)

section \<open>Whole cycles\<close>

text \<open>
  A cycle on a repo request that is fetched, processed and stored: pop, lock, fetch,
  upsert of the document with the etag and the version of the processor, unlock, done.
\<close>

lemma cycle_processed:
  "map is_lock_op (snd (processOne env_cycle ''0'')) = [False, True, False, False, True, False]
   \<and> map is_store_op (snd (processOne env_cycle ''0''))
       = [False, False, False, True, False, False]
   \<and> map is_done (snd (processOne env_cycle ''0''))
       = [False, False, False, False, False, True]
   \<and> payload_version (document (fst (processOne env_cycle ''0''))) = Some 3
   \<and> outcome (fst (processOne env_cycle ''0'')) = None
   \<and> attemptCount (fst (processOne env_cycle ''0'')) = None
   \<and> map_of (meta (fst (processOne env_cycle ''0''))) ''store'' = Some 3
   \<and> lock (fst (processOne env_cycle ''0'')) = None"
  by code_simp

text \<open>
  A cycle whose fetch fails: pop, lock, fetch, repush with an attempt count of 1,
  unlock, done; nothing is stored.
\<close>

lemma cycle_fetch_fails:
  "map is_repush (snd (processOne env_fetch_fails ''0''))
     = [False, False, False, True, False, False]
   \<and> map is_unlock (snd (processOne env_fetch_fails ''0''))
       = [False, False, False, False, True, False]
   \<and> map is_done (snd (processOne env_fetch_fails ''0''))
       = [False, False, False, False, False, True]
   \<and> filter is_store_op (snd (processOne env_fetch_fails ''0'')) = []
   \<and> attemptCount (fst (processOne env_fetch_fails ''0'')) = Some 1"
  by code_simp

text \<open>
  A cycle whose lock is contended: pop, lock, repush with an attempt count of 1, done;
  no lock is held, so none is released, and nothing is fetched or stored.
\<close>

lemma cycle_contended:
  "map is_repush (snd (processOne env_contended ''0'')) = [False, False, True, False]
   \<and> map is_done (snd (processOne env_contended ''0'')) = [False, False, False, True]
   \<and> filter is_unlock (snd (processOne env_contended ''0'')) = []
   \<and> outcome (fst (processOne env_contended ''0'')) = Some ''Requeued''
   \<and> attemptCount (fst (processOne env_contended ''0'')) = Some 1"
  by code_simp

section \<open>Requeue and the queuable projection\<close>

text \<open>
  C2. \<open>_requeue\<close> increments \<open>attemptCount\<close> (a missing count is 0) by one. When the
  incremented count exceeds 5, the only event is the push of the queuable projection to
  the dead-letter queue, so nothing is repushed. Otherwise the only event is the repush
  of the queuable projection, and \<open>attempt\<close> with the count is in the meta of the request.
  Hence a repushed queuable never has an \<open>attemptCount\<close> above 5, and a request that had
  five attempts goes to the dead-letter queue with its sixth.
\<close>

theorem requeue_attempts:
  "attemptCount (fst (snd (requeue env r))) = Some (or_default (attemptCount r) 0 + 1)
   \<and> (5 < or_default (attemptCount r) 0 + 1 \<longrightarrow>
        snd (snd (requeue env r)) = [PushDead (createQueuable (fst (snd (requeue env r))))]
        \<and> fst (requeue env r)
            = settled (pushDead_result env (createQueuable (fst (snd (requeue env r)))))
        \<and> meta (fst (snd (requeue env r))) = meta r)
   \<and> (or_default (attemptCount r) 0 + 1 \<le> 5 \<longrightarrow>
        snd (snd (requeue env r)) =
          [Repush (fst (snd (requeue env r))) (createQueuable (fst (snd (requeue env r))))]
        \<and> fst (requeue env r) =
            settled (repush_result env (fst (snd (requeue env r)))
                       (createQueuable (fst (snd (requeue env r)))))
        \<and> map_of (meta (fst (snd (requeue env r)))) ''attempt''
            = Some (or_default (attemptCount r) 0 + 1))
   \<and> (\<forall>orig q. Repush orig q \<in> set (snd (snd (requeue env r))) \<longrightarrow>
        (\<exists>a. attemptCount q = Some a \<and> a \<le> 5))
   \<and> (attemptCount r = Some 5 \<longrightarrow>
        snd (snd (requeue env r)) = [PushDead (createQueuable (r\<lparr>attemptCount := Some 6\<rparr>))])"
  by (auto simp add: requeue_def queueDead_def Let_def addMeta_def createQueuable_def
        new_Request_def or_default_def split: prod.splits)

text \<open>The theorem at a first attempt, which is repushed, and at a sixth, which is not.\<close>

theorem requeue_attempts_witness:
  "snd (snd (requeue env0 r_repo)) =
     [Repush (r_repo\<lparr>attemptCount := Some 1, meta := [(''attempt'', 1)]\<rparr>)
        (r_repo\<lparr>attemptCount := Some 1\<rparr>)]
   \<and> snd (snd (requeue env0 r_fifth)) = [PushDead (r_repo\<lparr>attemptCount := Some 6\<rparr>)]"
  using requeue_attempts [of env0 r_repo] requeue_attempts [of env0 r_fifth]
  by (simp add: r_fifth_def r_repo_def new_Request_def or_default_def createQueuable_def
        requeue_def queueDead_def addMeta_def Let_def empty_context_def)

text \<open>
  C3. The queuable projection built by \<open>_createQueuable\<close> has the type, url, context,
  policy and attemptCount of the request and nothing else of it: lock, promises,
  document, response, upsert and meta are absent, as are the outcome and the stamps of
  the cycle.
\<close>

theorem createQueuable_projection:
  "createQueuable r =
     \<lparr>rtype = rtype r, url = url r, rcontext = rcontext r, policy = policy r,
      attemptCount = attemptCount r,
      document = None, response = None, outcome = None, rmessage = None, control = None,
      meta = [], promises = [], lock = None, upsert = None, start = None, loopName = None,
      nextRequestTime = None\<rparr>"
  by (simp add: createQueuable_def new_Request_def)

section \<open>Acquiring the lock\<close>

text \<open>
  C4. For a request with a url, with a lock service configured, \<open>_acquireLock\<close> never
  rejects and calls \<open>lock\<close> once. When the lock fails with an error whose message starts
  with \<open>Exceeded\<close>, the request is marked for requeue with outcome \<open>Requeued\<close> and
  message \<open>Could not lock\<close>; when it fails with another error, the request is marked for
  requeue with outcome \<open>Error\<close> and that error; when it succeeds, the lease is
  \<open>request.lock\<close>.
\<close>

theorem acquireLock_failure_requeues:
  assumes "truthy (url r)" and "has_locker env"
  shows "fst (acquireLock env r) = None
    \<and> snd (snd (acquireLock env r)) = [Lock (the (url r)) (or_default (processingTtl env) 60000)]
    \<and> (\<forall>e. lock_result env (the (url r)) (or_default (processingTtl env) 60000) = Inl e
           \<and> startsWith (message e) ''Exceeded'' \<longrightarrow>
         fst (snd (acquireLock env r)) = markRequeue ''Requeued'' (Some (Text ''Could not lock'')) r
         \<and> outcome (fst (snd (acquireLock env r))) = Some ''Requeued''
         \<and> rmessage (fst (snd (acquireLock env r))) = Some (Text ''Could not lock'')
         \<and> shouldRequeue (fst (snd (acquireLock env r))))
    \<and> (\<forall>e. lock_result env (the (url r)) (or_default (processingTtl env) 60000) = Inl e
           \<and> \<not> startsWith (message e) ''Exceeded'' \<longrightarrow>
         fst (snd (acquireLock env r)) = markRequeue ''Error'' (Some (Err e)) r
         \<and> outcome (fst (snd (acquireLock env r))) = Some ''Error''
         \<and> rmessage (fst (snd (acquireLock env r))) = Some (Err e)
         \<and> shouldRequeue (fst (snd (acquireLock env r))))
    \<and> (\<forall>l. lock_result env (the (url r)) (or_default (processingTtl env) 60000) = Inr l \<longrightarrow>
         fst (snd (acquireLock env r)) = r\<lparr>lock := Some l\<rparr>)"
  using assms
  by (auto simp add: acquireLock_def Let_def markRequeue_def shouldRequeue_def split: sum.splits)

text \<open>The theorem at a contended lock, at a broken lock service and at a granted lease.\<close>

theorem acquireLock_failure_requeues_witness:
  "truthy (url r_repo) \<and> has_locker env0
   \<and> acquireLock env_lock_exceeded r_repo =
       (None, markRequeue ''Requeued'' (Some (Text ''Could not lock'')) r_repo,
        [Lock ''https://api.example.com/repos/acme/widget'' 60000])
   \<and> acquireLock env_lock_broken r_repo =
       (None, markRequeue ''Error'' (Some (Err (Error ''ECONNREFUSED''))) r_repo,
        [Lock ''https://api.example.com/repos/acme/widget'' 60000])
   \<and> lock (fst (snd (acquireLock env0 r_repo))) = Some ''lease1''"
  using acquireLock_failure_requeues [of r_repo env_lock_exceeded]
    acquireLock_failure_requeues [of r_repo env_lock_broken]
    acquireLock_failure_requeues [of r_repo env0]
  by (simp add: env_lock_exceeded_def env_lock_broken_def env0_def r_repo_def new_Request_def
        truthy_def or_default_def acquireLock_def Let_def markRequeue_def)

section \<open>The public enqueue entry point\<close>

text \<open>
  C10. \<open>Crawler.queue\<close> on a request without url or without type pushes its queuable
  projection to the dead-letter queue and throws \<open>Attempt to queue malformed request\<close>
  followed by the request; on a request that the org list excludes it returns the empty
  array and calls no queue.
\<close>

theorem queue_malformed_or_filtered:
  "(\<not> truthy (url r) \<or> \<not> truthy (rtype r) \<longrightarrow>
      queue env r qname =
        (Inl (Error (''Attempt to queue malformed request '' @ toString env r)),
         [PushDead (createQueuable r)]))
   \<and> (truthy (url r) \<and> truthy (rtype r)
        \<and> shouldInclude env (the (rtype r)) (the (url r)) = Inr False \<longrightarrow>
      queue env r qname = (Inr EmptyArray, []))"
  by (simp add: queue_def queueDead_def Let_def)

text \<open>The theorem at a request without url and at a repo of an org that is not listed.\<close>

theorem queue_malformed_or_filtered_witness:
  "\<not> truthy (url r_nourl)
   \<and> queue env0 r_nourl ''normal'' =
       (Inl (Error ''Attempt to queue malformed request repo@undefined''),
        [PushDead r_nourl])
   \<and> shouldInclude env_orgs ''repo'' ''https://api.example.com/repos/acme/widget'' = Inr False
   \<and> queue env_orgs r_repo ''normal'' = (Inr EmptyArray, [])"
  using queue_malformed_or_filtered [of r_nourl env0 "''normal''"]
    queue_malformed_or_filtered [of r_repo env_orgs "''normal''"]
  by (simp add: env_orgs_def env0_def r_nourl_def r_repo_def new_Request_def truthy_def
        createQueuable_def js_str_def shouldInclude_def toLowerCase_def lower_char_def Let_def)

section \<open>A cycle on exhausted queues\<close>

lemma catch_stage_events: "snd (catch_stage env res) = snd (snd res)"
  by (cases res) (simp add: catch_stage_def split: option.splits)

lemma logOutcome_events: "snd (snd (logOutcome env r)) = []"
  by (simp add: logOutcome_def Let_def split: option.splits)

lemma completeRequest_skipped_events:
  assumes "url r = None" and "promises r = []" and "lock r = None"
  shows "snd (snd (completeRequest env r False)) = [Done r]"
  using assms
  by (subst completeRequest.simps)
     (simp add: truthy_def releaseLock_unlocked deleteFromQueue_def)

lemma blank_getRequestWork:
  assumes "pop_result env = Inr None"
  shows "getRequestWork env loop =
     (None,
      Some ((markSkip ''Exhausted queue'' (Some (Text ''Waiting 2 seconds''))
              (delay_request (now env) (Some (or_default (pollingDelay env) 2000))
                 (new_Request (Some ''_blank'') None None)))
            \<lparr>start := Some (now env), loopName := Some loop,
             rcontext := Some empty_context, promises := []\<rparr>),
      [Pop])"
  using assms
  by (simp add: getRequestWork_def acquireLock_def new_Request_def markSkip_def
        delay_request_def truthy_def Let_def)

lemma blank_stages:
  assumes "url r = None" and "shouldSkip r"
  shows "catch_stage env
           (then_stage (filter_request env)
             (then_stage (fetch env)
               (then_stage (convertToDocument env)
                 (then_stage (processDocument env) (storeDocument env)))) r)
         = (markSkip ''Error''
              (Some (Err (Error (''Detected malformed request '' @ toString env r)))) r,
            [PushDead (createQueuable r)])"
  using assms
  by (simp add: then_stage_def catch_stage_def filter_request_def fetch_def
        convertToDocument_def processDocument_def storeDocument_def queueDead_def
        truthy_def shouldSkip_def markSkip_def Let_def)

lemma processOne_blank_events:
  assumes "pop_result env = Inr None"
  shows "\<exists>r. snd (processOne env loop) =
           [Pop, PushDead (new_Request (Some ''_blank'') None (Some empty_context)), Done r]"
proof -
  let ?b = "(markSkip ''Exhausted queue'' (Some (Text ''Waiting 2 seconds''))
              (delay_request (now env) (Some (or_default (pollingDelay env) 2000))
                 (new_Request (Some ''_blank'') None None)))
            \<lparr>start := Some (now env), loopName := Some loop,
             rcontext := Some empty_context, promises := []\<rparr>"
  have b: "url ?b = None" "shouldSkip ?b" "promises ?b = []" "lock ?b = None"
    by (simp_all add: markSkip_def delay_request_def new_Request_def shouldSkip_def)
  have q: "createQueuable ?b = new_Request (Some ''_blank'') None (Some empty_context)"
    by (simp add: createQueuable_def markSkip_def delay_request_def new_Request_def)
  define msg where "msg = Some (Err (Error (''Detected malformed request '' @ toString env ?b)))"
  have st: "catch_stage env
           (then_stage (filter_request env)
             (then_stage (fetch env)
               (then_stage (convertToDocument env)
                 (then_stage (processDocument env) (storeDocument env)))) ?b)
         = (markSkip ''Error'' msg ?b, [PushDead (createQueuable ?b)])"
    unfolding msg_def by (rule blank_stages [OF b(1) b(2)])
  let ?r1 = "markSkip ''Error'' msg ?b"
  have r1: "url ?r1 = None" "promises ?r1 = []" "lock ?r1 = None"
    using b by (simp_all add: markSkip_def)
  have c: "snd (snd (completeRequest env ?r1 False)) = [Done ?r1]"
    by (rule completeRequest_skipped_events [OF r1])
  obtain r2 where c2: "catch_stage env (completeRequest env ?r1 False) = (r2, [Done ?r1])"
    using catch_stage_events [of env "completeRequest env ?r1 False"] c
    by (cases "catch_stage env (completeRequest env ?r1 False)") simp
  obtain r3 where l3: "catch_stage env (logOutcome env r2) = (r3, [])"
    using catch_stage_events [of env "logOutcome env r2"] logOutcome_events [of env r2]
    by (cases "catch_stage env (logOutcome env r2)") simp
  have "snd (processOne env loop) = [Pop, PushDead (createQueuable ?b), Done ?r1]"
    unfolding processOne_def blank_getRequestWork [OF assms]
    by (simp add: st c2 l3)
  then show ?thesis unfolding q by blast
qed

text \<open>
  The statement of C5 fails: on empty queues the cycle pushes the queuable projection
  of the \<open>_blank\<close> request to the dead-letter queue (in \<open>_filter\<close>, which takes a request
  without url for a malformed one) and calls \<open>done\<close> on the \<open>_blank\<close> request.
\<close>

theorem processOne_blank_counterexample:
  "pop_result env0 = Inr None
   \<and> map is_pushDead (snd (processOne env0 ''0'')) = [False, True, False]
   \<and> map is_done (snd (processOne env0 ''0'')) = [False, False, True]
   \<and> snd (processOne env0 ''0'') ! 1
       = PushDead (new_Request (Some ''_blank'') None (Some empty_context))"
proof -
  have p: "pop_result env0 = Inr None" by (simp add: env0_def)
  from processOne_blank_events [OF p, of "''0''"] show ?thesis
    by (auto simp add: p)
qed

text \<open>
  C5, as amended. When the pop returns nothing, the request of the cycle is the
  \<open>_blank\<close> one, without url and without lock, skipped as \<open>Exhausted queue\<close>, with the
  next dequeue delayed by the polling delay (2000 ms by default). The rest of the cycle
  has no lock or unlock, no upsert, no push, no repush and no abandon; completion calls
  \<open>done\<close> on the request once.
\<close>

theorem processOne_blank_effects:
  assumes "pop_result env = Inr None"
  shows "(\<exists>r. getRequestWork env loop = (None, Some r, [Pop])
            \<and> rtype r = Some ''_blank'' \<and> url r = None
            \<and> outcome r = Some ''Exhausted queue''
            \<and> nextRequestTime r = Some (now env + or_default (pollingDelay env) 2000)
            \<and> lock r = None)
    \<and> filter (\<lambda>e. is_lock_op e \<or> is_store_op e \<or> is_push e \<or> is_repush e \<or> is_abandon e)
         (snd (processOne env loop)) = []
    \<and> length (filter is_done (snd (processOne env loop))) = 1"
proof (intro conjI)
  show "\<exists>r. getRequestWork env loop = (None, Some r, [Pop])
            \<and> rtype r = Some ''_blank'' \<and> url r = None
            \<and> outcome r = Some ''Exhausted queue''
            \<and> nextRequestTime r = Some (now env + or_default (pollingDelay env) 2000)
            \<and> lock r = None"
    by (simp add: blank_getRequestWork [OF assms] new_Request_def markSkip_def
          delay_request_def or_default_def split: option.splits)
next
  have ev: "\<exists>r. snd (processOne env loop) =
           [Pop, PushDead (new_Request (Some ''_blank'') None (Some empty_context)), Done r]"
    by (rule processOne_blank_events [OF assms])
  then show "filter (\<lambda>e. is_lock_op e \<or> is_store_op e \<or> is_push e \<or> is_repush e \<or> is_abandon e)
         (snd (processOne env loop)) = []" by auto
  from ev show "length (filter is_done (snd (processOne env loop))) = 1" by auto
qed

text \<open>The theorem at collaborators over empty queues.\<close>

theorem processOne_blank_effects_witness:
  "pop_result env0 = Inr None
   \<and> filter (\<lambda>e. is_lock_op e \<or> is_store_op e \<or> is_push e \<or> is_repush e \<or> is_abandon e)
        (snd (processOne env0 ''0'')) = []
   \<and> length (filter is_done (snd (processOne env0 ''0''))) = 1
   \<and> nextRequestTime (the (fst (snd (getRequestWork env0 ''0'')))) = Some 3000"
proof -
  have p: "pop_result env0 = Inr None" by (simp add: env0_def)
  have n: "now env0 = 1000" "pollingDelay env0 = None" by (simp_all add: env0_def)
  from processOne_blank_effects [OF p, of "''0''"] show ?thesis
    by (auto simp add: p n or_default_def)
qed

section \<open>The version of stored documents\<close>

lemma storeDocument_events:
  "snd (snd (storeDocument env r)) =
     (if shouldSkip r \<or> \<not> shouldSave env r then [] else [Upsert (document r)])"
  by (simp add: storeDocument_def split: sum.splits)

text \<open>
  C6. The version of the processor is 3. When \<open>process\<close> finds a handler, the policy
  permits and the handler returns, the document that \<open>process\<close> returns has that version
  in its \<open>_metadata\<close>. Hence whatever \<open>_storeDocument\<close> gives to \<open>upsert\<close>, for a request
  that \<open>_processDocument\<close> passed on, has the version of the processor.
\<close>

theorem stored_document_version:
  "processor_version = 3
   \<and> (\<forall>h doc r1 evs. getHandler env r = Inr (Some h) \<and> shouldProcess env r processor_version
          \<and> process env r = (Inr doc, r1, evs) \<longrightarrow>
        payload_version doc = Some processor_version)
   \<and> (\<forall>r1 evs p. processDocument env r = (None, r1, evs)
          \<and> Upsert p \<in> set (snd (snd (storeDocument env r1))) \<longrightarrow>
        payload_version p = Some processor_version)"
proof (intro conjI allI impI)
  show "processor_version = 3" by (simp add: processor_version_def)
next
  fix h doc r1 evs
  assume a: "getHandler env r = Inr (Some h) \<and> shouldProcess env r processor_version
          \<and> process env r = (Inr doc, r1, evs)"
  then show "payload_version doc = Some processor_version"
    by (auto simp add: process_def payload_version_def split: prod.splits sum.splits option.splits)
next
  fix r1 evs p
  assume a: "processDocument env r = (None, r1, evs)
          \<and> Upsert p \<in> set (snd (snd (storeDocument env r1)))"
  then have pd: "processDocument env r = (None, r1, evs)"
    and up: "Upsert p \<in> set (snd (snd (storeDocument env r1)))" by auto
  from up have ns: "\<not> shouldSkip r1" and p: "p = document r1"
    by (auto simp add: storeDocument_events split: if_splits)
  show "payload_version p = Some processor_version"
  proof (cases "shouldSkip r")
    case True
    with pd ns show ?thesis by (simp add: processDocument_def)
  next
    case False
    with pd ns p show ?thesis
      by (auto simp add: processDocument_def process_def payload_version_def
            shouldSkip_def markSkip_def Let_def
            split: prod.splits sum.splits option.splits if_splits)
  qed
qed

text \<open>The theorem at a converted repo document: what is upserted has version 3.\<close>

theorem stored_document_version_witness:
  "getHandler env_repo r_converted = Inr (Some h_document)
   \<and> fst (process env_repo r_converted) =
       Inr (Some (ObjectDoc (d_repo\<lparr>metadata := Some (m_fresh\<lparr>version := Some 3\<rparr>)\<rparr>)))
   \<and> fst (processDocument env_repo r_converted) = None
   \<and> snd (snd (storeDocument env_repo (fst (snd (processDocument env_repo r_converted))))) =
       [Upsert (Some (ObjectDoc (d_repo\<lparr>metadata := Some (m_fresh\<lparr>version := Some 3\<rparr>)\<rparr>)))]
   \<and> payload_version (Some (ObjectDoc (d_repo\<lparr>metadata := Some (m_fresh\<lparr>version := Some 3\<rparr>)\<rparr>)))
       = Some 3"
  using stored_document_version [of env_repo r_converted]
  by (simp add: env_repo_def env0_def r_converted_def r_locked_def r_repo_def new_Request_def
        d_repo_def m_fresh_def h_document_def getHandler_def truthy_def process_def
        processDocument_def storeDocument_def shouldSkip_def processor_version_def
        payload_version_def)

section \<open>The pages of a collection\<close>

lemma queueElements_eq:
  "queueElements env t q xs r =
     (r\<lparr>promises := promises r
           @ concat (map (\<lambda>item. fst (queueCollectionElement env t (e_url item) q)) xs)\<rparr>,
      concat (map (\<lambda>item. snd (queueCollectionElement env t (e_url item) q)) xs))"
proof (induction xs arbitrary: r)
  case Nil
  show ?case by simp
next
  case (Cons item items)
  show ?case
    by (simp add: Cons.IH split: prod.splits)
qed

lemma pageRequest_pages: "map (pageRequest r c) [2..l] = map (\<lambda>i.
               \<lparr>rtype = rtype r,
                url = Some (js_str (url r) @ ''?page='' @ int_toString i @ ''&per_page=100''),
                rcontext = Some \<lparr>qualifier = qualifier c, relation = None, extras = []\<rparr>,
                policy = policy r, attemptCount = None, document = None, response = None,
                outcome = None, rmessage = None, control = None, meta = [], promises = [],
                lock = None, upsert = None, start = None, loopName = None,
                nextRequestTime = None\<rparr>) [2..l]"
    by (simp add: pageRequest_def new_Request_def)

lemma collection_with_link_header:
  assumes "truthy (linkHeader r)"
    and "parse env (the (linkHeader r)) = Some lnks"
    and "last_rel lnks = Some lastRel"
    and "rel_page lastRel = Some l"
    and "rcontext r = Some c"
  shows "collection env r =
      (case page env ''1'' (track (push_result env (map (pageRequest r c) [2..l]) ''soon'') r) of
         (res, r2, evs) \<Rightarrow> (res, r2, Push (map (pageRequest r c) [2..l]) ''soon'' # evs))"
    using assms by (simp add: collection_def Let_def)

lemma addLink_eq:
  assumes "document r = Some (ObjectDoc d)" and "metadata d = Some m"
  shows "addLink n kind targets r =
     Inr (r\<lparr>document := Some (ObjectDoc (d\<lparr>metadata := Some
            (m\<lparr>links := filter (\<lambda>l. fst l \<noteq> n) (links m) @ [(n, kind, targets)]\<rparr>)\<rparr>))\<rparr>)"
  using assms by (simp add: addLink_def)

lemma processRelation_eq:
  assumes "document r = Some (ObjectDoc d)" and "metadata d = Some m" and "elements d = Some xs"
  shows "processRelation r q orig n t =
     Inr (r\<lparr>document := Some (ObjectDoc (d\<lparr>metadata := Some (m\<lparr>links :=
        filter (\<lambda>k. fst k \<noteq> ''resources'')
          (filter (\<lambda>k. fst k \<noteq> ''siblings'')
             (filter (\<lambda>k. fst k \<noteq> js_str orig)
                (filter (\<lambda>k. fst k \<noteq> ''origin'') (links m)
                   @ [(''origin'', ''resource'', [js_str q])])
              @ [(js_str orig, ''resource'', [js_str q])])
           @ [(''siblings'', ''siblings'', [js_str q @ '':'' @ js_str n @ '':pages''])])
        @ [(''resources'', ''resource'',
            map (\<lambda>el. ''urn:'' @ js_str t @ '':'' @ js_str (e_id el)) xs)]\<rparr>)\<rparr>))\<rparr>)"
proof -
  let ?l1 = "filter (\<lambda>k. fst k \<noteq> ''origin'') (links m) @ [(''origin'', ''resource'', [js_str q])]"
  let ?d1 = "d\<lparr>metadata := Some (m\<lparr>links := ?l1\<rparr>)\<rparr>"
  let ?r1 = "r\<lparr>document := Some (ObjectDoc ?d1)\<rparr>"
  have s1: "linkResource ''origin'' [js_str q] r = Inr ?r1"
    unfolding linkResource_def by (rule addLink_eq [OF assms(1) assms(2)])
  let ?l2 = "filter (\<lambda>k. fst k \<noteq> js_str orig) ?l1 @ [(js_str orig, ''resource'', [js_str q])]"
  let ?d2 = "d\<lparr>metadata := Some (m\<lparr>links := ?l2\<rparr>)\<rparr>"
  let ?r2 = "r\<lparr>document := Some (ObjectDoc ?d2)\<rparr>"
  have s2: "linkResource (js_str orig) [js_str q] ?r1 = Inr ?r2"
    unfolding linkResource_def
    using addLink_eq [of ?r1 ?d1 "m\<lparr>links := ?l1\<rparr>" "js_str orig" "''resource''" "[js_str q]"]
    by simp
  let ?l3 = "filter (\<lambda>k. fst k \<noteq> ''siblings'') ?l2
      @ [(''siblings'', ''siblings'', [js_str q @ '':'' @ js_str n @ '':pages''])]"
  let ?d3 = "d\<lparr>metadata := Some (m\<lparr>links := ?l3\<rparr>)\<rparr>"
  let ?r3 = "r\<lparr>document := Some (ObjectDoc ?d3)\<rparr>"
  have s3: "linkSiblings (js_str q @ '':'' @ js_str n @ '':pages'') ?r2 = Inr ?r3"
    unfolding linkSiblings_def
    using addLink_eq [of ?r2 ?d2 "m\<lparr>links := ?l2\<rparr>" "''siblings''" "''siblings''"
        "[js_str q @ '':'' @ js_str n @ '':pages'']"]
    by simp
  have e3: "document_elements ?r3 = Inr xs"
    using assms(3) by (simp add: document_elements_def)
  let ?urns = "map (\<lambda>el. ''urn:'' @ js_str t @ '':'' @ js_str (e_id el)) xs"
  have s4: "linkResource ''resources'' ?urns ?r3 =
      Inr (r\<lparr>document := Some (ObjectDoc (d\<lparr>metadata := Some (m\<lparr>links :=
         filter (\<lambda>k. fst k \<noteq> ''resources'') ?l3 @ [(''resources'', ''resource'', ?urns)]\<rparr>)\<rparr>))\<rparr>)"
    unfolding linkResource_def
    using addLink_eq [of ?r3 ?d3 "m\<lparr>links := ?l3\<rparr>" "''resources''" "''resource''" ?urns]
    by simp
  show ?thesis
    unfolding processRelation_def s1 sum.case s2 s3 e3 s4 ..
qed

lemma page_no_relation:
  assumes "rcontext r = Some c" and "relation c = None"
    and "document r = Some (ObjectDoc d)" and "metadata d = Some m" and "elements d = Some xs"
  shows "page env pg r =
     (let d1 = d\<lparr>metadata := Some (m\<lparr>links := filter (\<lambda>k. fst k \<noteq> ''self'') (links m)
                    @ [(''self'', ''resource'',
                        [js_str (qualifier c) @ '':'' @ js_str (rtype r) @ '':page:'' @ pg])]\<rparr>)\<rparr>;
          r1 = r\<lparr>document := Some (ObjectDoc d1)\<rparr>;
          queued = map (\<lambda>item. queueCollectionElement env (getCollectionType env r1)
                                  (e_url item) (qualifier c)) xs
      in (Inr d1, r1\<lparr>promises := promises r1 @ concat (map fst queued)\<rparr>,
          concat (map snd queued)))"
  using assms
  by (simp add: page_def linkResource_def addLink_def document_elements_def
        queueElements_eq Let_def comp_def)

lemma page_relation:
  assumes "rcontext r = Some c" and "relation c = Some rel"
    and "document r = Some (ObjectDoc d)" and "metadata d = Some m" and "elements d = Some xs"
  shows "page env pg r =
     (let q = qualifier c;
          links1 = filter (\<lambda>k. fst k \<noteq> ''self'') (links m)
                    @ [(''self'', ''resource'',
                        [js_str q @ '':'' @ js_str (rtype r) @ '':page:'' @ pg])];
          links2 =
            filter (\<lambda>k. fst k \<noteq> ''resources'')
              (filter (\<lambda>k. fst k \<noteq> ''siblings'')
                 (filter (\<lambda>k. fst k \<noteq> js_str (origin rel))
                    (filter (\<lambda>k. fst k \<noteq> ''origin'') links1
                       @ [(''origin'', ''resource'', [js_str q])])
                  @ [(js_str (origin rel), ''resource'', [js_str q])])
               @ [(''siblings'', ''siblings'',
                   [js_str q @ '':'' @ js_str (rel_name rel) @ '':pages''])])
            @ [(''resources'', ''resource'',
                map (\<lambda>el. ''urn:'' @ js_str (rel_type rel) @ '':'' @ js_str (e_id el)) xs)];
          d1 = d\<lparr>metadata := Some (m\<lparr>links := links2\<rparr>)\<rparr>;
          r1 = r\<lparr>document := Some (ObjectDoc d1)\<rparr>;
          queued = map (\<lambda>item. queueCollectionElement env (getCollectionType env r1)
                                  (e_url item) q) xs
      in (Inr d1, r1\<lparr>promises := promises r1 @ concat (map fst queued)\<rparr>,
          concat (map snd queued)))"
proof -
  let ?q = "qualifier c"
  let ?l1 = "filter (\<lambda>k. fst k \<noteq> ''self'') (links m)
                    @ [(''self'', ''resource'',
                        [js_str ?q @ '':'' @ js_str (rtype r) @ '':page:'' @ pg])]"
  let ?d0 = "d\<lparr>metadata := Some (m\<lparr>links := ?l1\<rparr>)\<rparr>"
  let ?r0 = "r\<lparr>document := Some (ObjectDoc ?d0)\<rparr>"
  have s1: "linkResource ''self'' [js_str ?q @ '':'' @ js_str (rtype r) @ '':page:'' @ pg] r
      = Inr ?r0"
    unfolding linkResource_def by (rule addLink_eq [OF assms(3) assms(4)])
  let ?l2 = "filter (\<lambda>k. fst k \<noteq> ''resources'')
              (filter (\<lambda>k. fst k \<noteq> ''siblings'')
                 (filter (\<lambda>k. fst k \<noteq> js_str (origin rel))
                    (filter (\<lambda>k. fst k \<noteq> ''origin'') ?l1
                       @ [(''origin'', ''resource'', [js_str ?q])])
                  @ [(js_str (origin rel), ''resource'', [js_str ?q])])
               @ [(''siblings'', ''siblings'',
                   [js_str ?q @ '':'' @ js_str (rel_name rel) @ '':pages''])])
            @ [(''resources'', ''resource'',
                map (\<lambda>el. ''urn:'' @ js_str (rel_type rel) @ '':'' @ js_str (e_id el)) xs)]"
  let ?d1 = "d\<lparr>metadata := Some (m\<lparr>links := ?l2\<rparr>)\<rparr>"
  let ?r1 = "r\<lparr>document := Some (ObjectDoc ?d1)\<rparr>"
  have s2: "processRelation ?r0 ?q (origin rel) (rel_name rel) (rel_type rel) = Inr ?r1"
    using processRelation_eq [of ?r0 ?d0 "m\<lparr>links := ?l1\<rparr>" xs ?q "origin rel" "rel_name rel"
        "rel_type rel"] assms(5)
    by simp
  have e: "document_elements ?r1 = Inr xs"
    using assms(5) by (simp add: document_elements_def)
  have d: "document (fst (queueElements env t ?q xs ?r1)) = Some (ObjectDoc ?d1)" for t
    by (simp add: queueElements_eq)
  show ?thesis
    unfolding page_def assms(1) assms(2) option.case s1 sum.case s2 e
    by (simp add: queueElements_eq Let_def comp_def)
qed

lemma page_eq:
  assumes "rcontext r = Some c"
    and "document r = Some (ObjectDoc d)" and "metadata d = Some m" and "elements d = Some xs"
  shows "page env pg r =
     (let q = qualifier c;
          links1 = filter (\<lambda>k. fst k \<noteq> ''self'') (links m)
                    @ [(''self'', ''resource'',
                        [js_str q @ '':'' @ js_str (rtype r) @ '':page:'' @ pg])];
          links2 =
            (case relation c of
               None \<Rightarrow> links1
             | Some rel \<Rightarrow>
                 filter (\<lambda>k. fst k \<noteq> ''resources'')
                   (filter (\<lambda>k. fst k \<noteq> ''siblings'')
                      (filter (\<lambda>k. fst k \<noteq> js_str (origin rel))
                         (filter (\<lambda>k. fst k \<noteq> ''origin'') links1
                            @ [(''origin'', ''resource'', [js_str q])])
                       @ [(js_str (origin rel), ''resource'', [js_str q])])
                    @ [(''siblings'', ''siblings'',
                        [js_str q @ '':'' @ js_str (rel_name rel) @ '':pages''])])
                 @ [(''resources'', ''resource'',
                     map (\<lambda>el. ''urn:'' @ js_str (rel_type rel) @ '':'' @ js_str (e_id el)) xs)]);
          d1 = d\<lparr>metadata := Some (m\<lparr>links := links2\<rparr>)\<rparr>;
          r1 = r\<lparr>document := Some (ObjectDoc d1)\<rparr>;
          queued = map (\<lambda>item. queueCollectionElement env (getCollectionType env r1)
                                  (e_url item) q) xs
      in (Inr d1, r1\<lparr>promises := promises r1 @ concat (map fst queued)\<rparr>,
          concat (map snd queued)))"
proof (cases "relation c")
  case None
  show ?thesis
    unfolding Let_def None option.case
    using page_no_relation [OF assms(1) None assms(2) assms(3) assms(4), of env pg]
    by (simp add: Let_def)
next
  case (Some rel)
  show ?thesis
    unfolding Let_def Some option.case
    using page_relation [OF assms(1) Some assms(2) assms(3) assms(4), of env pg]
    by (simp add: Let_def)
qed

text \<open>
  C7. For a collection request with a context, whose response has a link header that
  parses to a last page \<open>l\<close>, the first event of \<open>collection\<close> is one push onto the
  \<open>soon\<close> queue of the requests for the pages 2 to \<open>l\<close>, \<open>l - 1\<close> of them when \<open>l\<close>
  is at least 1. Each is a new request: it has the type and the policy of the current
  one, its url with the page appended, a context that has the current qualifier and
  nothing else, and no other field set. The current request tracks the promise of the
  push and is then processed as page 1: its document gets the self link
  \<open>qualifier:type:page:1\<close> (and the links of the relation, when the context has one),
  every element of the document is queued as a collection element, and that document is
  what \<open>collection\<close> returns.
\<close>

theorem collection_enqueues_pages:
  assumes "truthy (linkHeader r)"
    and "parse env (the (linkHeader r)) = Some lnks"
    and "last_rel lnks = Some lastRel"
    and "rel_page lastRel = Some l"
    and "rcontext r = Some c"
  shows "let reqs = map (\<lambda>i.
               \<lparr>rtype = rtype r,
                url = Some (js_str (url r) @ ''?page='' @ int_toString i @ ''&per_page=100''),
                rcontext = Some \<lparr>qualifier = qualifier c, relation = None, extras = []\<rparr>,
                policy = policy r, attemptCount = None, document = None, response = None,
                outcome = None, rmessage = None, control = None, meta = [], promises = [],
                lock = None, upsert = None, start = None, loopName = None,
                nextRequestTime = None\<rparr>) [2..l]
     in length reqs = nat (l - 1)
        \<and> (1 \<le> l \<longrightarrow> int (length reqs) = l - 1)
        \<and> (\<exists>res r2 evs. collection env r = (res, r2, Push reqs ''soon'' # evs))
        \<and> (\<forall>d m xs. document r = Some (ObjectDoc d) \<and> metadata d = Some m
              \<and> elements d = Some xs \<longrightarrow>
            (let q = qualifier c;
                 links1 = filter (\<lambda>k. fst k \<noteq> ''self'') (links m)
                    @ [(''self'', ''resource'',
                        [js_str q @ '':'' @ js_str (rtype r) @ '':page:1''])];
                 links2 =
                   (case relation c of
                      None \<Rightarrow> links1
                    | Some rel \<Rightarrow>
                        filter (\<lambda>k. fst k \<noteq> ''resources'')
                          (filter (\<lambda>k. fst k \<noteq> ''siblings'')
                             (filter (\<lambda>k. fst k \<noteq> js_str (origin rel))
                                (filter (\<lambda>k. fst k \<noteq> ''origin'') links1
                                   @ [(''origin'', ''resource'', [js_str q])])
                              @ [(js_str (origin rel), ''resource'', [js_str q])])
                           @ [(''siblings'', ''siblings'',
                               [js_str q @ '':'' @ js_str (rel_name rel) @ '':pages''])])
                        @ [(''resources'', ''resource'',
                            map (\<lambda>el. ''urn:'' @ js_str (rel_type rel) @ '':'' @ js_str (e_id el))
                              xs)]);
                 d1 = d\<lparr>metadata := Some (m\<lparr>links := links2\<rparr>)\<rparr>;
                 r1 = r\<lparr>promises := promises r @ [push_result env reqs ''soon''],
                        document := Some (ObjectDoc d1)\<rparr>;
                 queued = map (\<lambda>item. queueCollectionElement env (getCollectionType env r1)
                                  (e_url item) q) xs
             in collection env r =
                  (Inr d1,
                   r1\<lparr>promises := promises r1 @ concat (map fst queued)\<rparr>,
                   Push reqs ''soon'' # concat (map snd queued))))"
proof -
  define reqs where "reqs = map (\<lambda>i.
               \<lparr>rtype = rtype r,
                url = Some (js_str (url r) @ ''?page='' @ int_toString i @ ''&per_page=100''),
                rcontext = Some \<lparr>qualifier = qualifier c, relation = None, extras = []\<rparr>,
                policy = policy r, attemptCount = None, document = None, response = None,
                outcome = None, rmessage = None, control = None, meta = [], promises = [],
                lock = None, upsert = None, start = None, loopName = None,
                nextRequestTime = None\<rparr>) [2..l]"
  have pr: "map (pageRequest r c) [2..l] = reqs"
    unfolding reqs_def by (rule pageRequest_pages)
  have len: "length reqs = nat (l - 1)"
    unfolding reqs_def by simp
  define tr where "tr = track (push_result env reqs ''soon'') r"
  have col: "collection env r =
      (case page env ''1'' tr of (res, r2, evs) \<Rightarrow> (res, r2, Push reqs ''soon'' # evs))"
    unfolding tr_def pr [symmetric] by (rule collection_with_link_header [OF assms])
  have ex: "\<exists>res r2 evs. collection env r = (res, r2, Push reqs ''soon'' # evs)"
    unfolding col by (cases "page env ''1'' tr") simp
  have tr_fields: "rcontext tr = Some c" "rtype tr = rtype r"
    "promises tr = promises r @ [push_result env reqs ''soon'']"
    using assms(5) by (simp_all add: tr_def track_def)
  have pg: "let q = qualifier c;
                 links1 = filter (\<lambda>k. fst k \<noteq> ''self'') (links m)
                    @ [(''self'', ''resource'',
                        [js_str q @ '':'' @ js_str (rtype r) @ '':page:1''])];
                 links2 =
                   (case relation c of
                      None \<Rightarrow> links1
                    | Some rel \<Rightarrow>
                        filter (\<lambda>k. fst k \<noteq> ''resources'')
                          (filter (\<lambda>k. fst k \<noteq> ''siblings'')
                             (filter (\<lambda>k. fst k \<noteq> js_str (origin rel))
                                (filter (\<lambda>k. fst k \<noteq> ''origin'') links1
                                   @ [(''origin'', ''resource'', [js_str q])])
                              @ [(js_str (origin rel), ''resource'', [js_str q])])
                           @ [(''siblings'', ''siblings'',
                               [js_str q @ '':'' @ js_str (rel_name rel) @ '':pages''])])
                        @ [(''resources'', ''resource'',
                            map (\<lambda>el. ''urn:'' @ js_str (rel_type rel) @ '':'' @ js_str (e_id el))
                              xs)]);
                 d1 = d\<lparr>metadata := Some (m\<lparr>links := links2\<rparr>)\<rparr>;
                 r1 = r\<lparr>promises := promises r @ [push_result env reqs ''soon''],
                        document := Some (ObjectDoc d1)\<rparr>;
                 queued = map (\<lambda>item. queueCollectionElement env (getCollectionType env r1)
                                  (e_url item) q) xs
             in collection env r =
                  (Inr d1,
                   r1\<lparr>promises := promises r1 @ concat (map fst queued)\<rparr>,
                   Push reqs ''soon'' # concat (map snd queued))"
    if a: "document r = Some (ObjectDoc d) \<and> metadata d = Some m \<and> elements d = Some xs"
    for d m xs
  proof -
    from a have dt: "document tr = Some (ObjectDoc d)" by (simp add: tr_def track_def)
    from a have md: "metadata d = Some m" and el: "elements d = Some xs" by simp_all
    have upd: "tr\<lparr>document := x\<rparr> = r\<lparr>promises := promises r @ [push_result env reqs ''soon''],
                       document := x\<rparr>" for x
      by (simp add: tr_def track_def)
    show ?thesis
      unfolding col page_eq [OF tr_fields(1) dt md el, of env "''1''"]
      by (simp add: Let_def tr_fields(2) upd)
  qed
  show ?thesis
    unfolding reqs_def [symmetric]
    using len ex pg by (simp add: Let_def)
qed

text \<open>
  The theorem at a link header whose last page is 7, on a document of two issues: six
  new requests for the pages 2 to 7 go onto \<open>soon\<close>, none with the lock of the current
  request, then the two issues are queued and the document has its link to page 1;
  and on the same request with a relation in its context, where the document gets the
  links of the relation as well.
\<close>

theorem collection_enqueues_pages_witness:
  "truthy (linkHeader r_issues)
   \<and> collection env_link r_issues =
       (Inr d_issues_page1,
        r_issues\<lparr>promises := [Resolved, Resolved, Resolved],
                 document := Some (ObjectDoc d_issues_page1)\<rparr>,
        [Push [issues_page ''2'', issues_page ''3'', issues_page ''4'', issues_page ''5'',
               issues_page ''6'', issues_page ''7''] ''soon'',
         Push [issue_request ''1''] ''normal'',
         Push [issue_request ''2''] ''normal''])
   \<and> lock r_issues = Some ''lease1'' \<and> lock (issues_page ''2'') = None
   \<and> fst (collection env_link r_related) =
       Inr \<lparr>body = [], elements = Some issue_elements,
            metadata = Some (m_issues\<lparr>links :=
              [(''self'', ''resource'', [''urn:repo:42:issues:page:1'']),
               (''origin'', ''resource'', [''urn:repo:42'']),
               (''repo'', ''resource'', [''urn:repo:42'']),
               (''siblings'', ''siblings'', [''urn:repo:42:collaborators:pages'']),
               (''resources'', ''resource'', [''urn:user:101'', ''urn:user:102''])]\<rparr>)\<rparr>"
proof -
  have lh: "truthy (linkHeader r_issues)"
    by (simp add: r_issues_def resp_issues_def linkHeader_def truthy_def)
  have ps: "parse env_link (the (linkHeader r_issues))
      = Some \<lparr>last_rel = Some \<lparr>rel_page = Some 7\<rparr>\<rparr>"
    by (simp add: env_link_def)
  have cx: "rcontext r_issues = Some c_repo"
    by (simp add: r_issues_def new_Request_def)
  have doc: "document r_issues = Some (ObjectDoc
       \<lparr>body = [], elements = Some issue_elements, metadata = Some m_issues\<rparr>)
     \<and> metadata \<lparr>body = [], elements = Some issue_elements, metadata = Some m_issues\<rparr>
         = Some m_issues
     \<and> elements \<lparr>body = [], elements = Some issue_elements, metadata = Some m_issues\<rparr>
         = Some issue_elements"
    by (simp add: r_issues_def)
  note t = collection_enqueues_pages [OF lh ps _ _ cx, of "\<lparr>rel_page = Some 7\<rparr>" 7,
      unfolded Let_def, simplified, THEN conjunct2, rule_format, OF doc]
  have first: "collection env_link r_issues =
       (Inr d_issues_page1,
        r_issues\<lparr>promises := [Resolved, Resolved, Resolved],
                 document := Some (ObjectDoc d_issues_page1)\<rparr>,
        [Push [issues_page ''2'', issues_page ''3'', issues_page ''4'', issues_page ''5'',
               issues_page ''6'', issues_page ''7''] ''soon'',
         Push [issue_request ''1''] ''normal'',
         Push [issue_request ''2''] ''normal''])
     \<and> lock r_issues = Some ''lease1'' \<and> lock (issues_page ''2'') = None"
    using t
    by (simp add: r_issues_def env_link_def env0_def c_repo_def m_issues_def
          issue_elements_def issues_page_def issue_request_def d_issues_page1_def
          new_Request_def js_str_def int_toString_def digit_char_def upto_rec_numeral)
  have lh2: "truthy (linkHeader r_related)"
    by (simp add: r_related_def r_issues_def resp_issues_def linkHeader_def truthy_def)
  have ps2: "parse env_link (the (linkHeader r_related))
      = Some \<lparr>last_rel = Some \<lparr>rel_page = Some 7\<rparr>\<rparr>"
    by (simp add: env_link_def)
  have cx2: "rcontext r_related = Some (c_repo\<lparr>relation := Some
        \<lparr>origin = Some ''repo'', rel_name = Some ''collaborators'',
         rel_type = Some ''user''\<rparr>\<rparr>)"
    by (simp add: r_related_def)
  have doc2: "document r_related = Some (ObjectDoc
       \<lparr>body = [], elements = Some issue_elements, metadata = Some m_issues\<rparr>)
     \<and> metadata \<lparr>body = [], elements = Some issue_elements, metadata = Some m_issues\<rparr>
         = Some m_issues
     \<and> elements \<lparr>body = [], elements = Some issue_elements, metadata = Some m_issues\<rparr>
         = Some issue_elements"
    by (simp add: r_related_def r_issues_def)
  note t2 = collection_enqueues_pages [OF lh2 ps2 _ _ cx2, of "\<lparr>rel_page = Some 7\<rparr>" 7,
      unfolded Let_def, simplified, THEN conjunct2, rule_format, OF doc2]
  have second: "fst (collection env_link r_related) =
       Inr \<lparr>body = [], elements = Some issue_elements,
            metadata = Some (m_issues\<lparr>links :=
              [(''self'', ''resource'', [''urn:repo:42:issues:page:1'']),
               (''origin'', ''resource'', [''urn:repo:42'']),
               (''repo'', ''resource'', [''urn:repo:42'']),
               (''siblings'', ''siblings'', [''urn:repo:42:collaborators:pages'']),
               (''resources'', ''resource'', [''urn:user:101'', ''urn:user:102''])]\<rparr>)\<rparr>"
    using t2
    by (simp add: r_related_def r_issues_def c_repo_def m_issues_def issue_elements_def
          new_Request_def js_str_def)
  from lh first second show ?thesis by simp
qed

section \<open>Stopping a worker loop\<close>

lemma loop_steps_finished: "phase w = Finished \<Longrightarrow> loop_steps inps w = w"
  by (induction inps) (simp_all add: loop_step_def)

lemma loop_step_stopping:
  assumes "phase w = Sleeping \<or> phase w = Cycling" and "delay (ctx w) = - 1"
  shows "loop_step inp w = call_done w"
  using assms
  by (auto simp add: loop_step_def wake_def cycle_end_def run_def computeDelay_def
        split: sum.splits)

lemma loop_steps_stopping:
  assumes "phase w = Sleeping \<or> phase w = Cycling" and "delay (ctx w) = - 1" and "inps \<noteq> []"
  shows "loop_steps inps w = call_done w"
proof (cases inps)
  case Nil
  with assms(3) show ?thesis by simp
next
  case (Cons inp rest)
  have "phase (call_done w) = Finished" by (simp add: call_done_def)
  then show ?thesis
    by (simp add: Cons loop_step_stopping [OF assms(1) assms(2)] loop_steps_finished)
qed

text \<open>
  C8. Once the delay of a running loop (asleep or in a cycle, with a \<open>done\<close> callback)
  is set to -1, after any further steps of the loop, one or more, \<open>done\<close> has been called
  exactly once more, no cycle has begun and the loop has returned: a sleeping loop calls
  \<open>done\<close> when it wakes, a loop in a cycle when the cycle ends. \<open>CrawlerLoop.stop\<close> sets
  the delay to -1 and the state to stopping, and leaves a loop that is stopping or
  stopped as it is, so \<open>stop\<close> after \<open>stop\<close> changes nothing.
\<close>

theorem loop_stops_once:
  "((phase w = Sleeping \<or> phase w = Cycling) \<and> hasDone (ctx w) \<and> inps \<noteq> [] \<longrightarrow>
       doneCalls (loop_steps inps (set_delay (- 1) w)) = Suc (doneCalls w)
       \<and> cycles (loop_steps inps (set_delay (- 1) w)) = cycles w
       \<and> phase (loop_steps inps (set_delay (- 1) w)) = Finished)
   \<and> stop (stop l) = stop l
   \<and> (state l = Some Stopping \<or> state l = Some Stopped \<longrightarrow> stop l = l)
   \<and> (state l \<noteq> Some Stopping \<and> state l \<noteq> Some Stopped \<longrightarrow>
        state (stop l) = Some Stopping \<and> worker (stop l) = set_delay (- 1) (worker l)
        \<and> delay (options (stop l)) = - 1)"
proof (intro conjI impI)
  assume a: "(phase w = Sleeping \<or> phase w = Cycling) \<and> hasDone (ctx w) \<and> inps \<noteq> []"
  then have p: "phase (set_delay (- 1) w) = Sleeping \<or> phase (set_delay (- 1) w) = Cycling"
    and d: "delay (ctx (set_delay (- 1) w)) = - 1" and n: "inps \<noteq> []"
    by (auto simp add: set_delay_def)
  have eq: "loop_steps inps (set_delay (- 1) w) = call_done (set_delay (- 1) w)"
    by (rule loop_steps_stopping [OF p d n])
  from a show "doneCalls (loop_steps inps (set_delay (- 1) w)) = Suc (doneCalls w)"
    unfolding eq by (simp add: call_done_def set_delay_def)
  show "cycles (loop_steps inps (set_delay (- 1) w)) = cycles w"
    unfolding eq by (simp add: call_done_def set_delay_def)
  show "phase (loop_steps inps (set_delay (- 1) w)) = Finished"
    unfolding eq by (simp add: call_done_def)
next
  show "stop (stop l) = stop l" by (simp add: stop_def)
next
  assume "state l = Some Stopping \<or> state l = Some Stopped"
  then show "stop l = l" by (auto simp add: stop_def)
next
  assume a: "state l \<noteq> Some Stopping \<and> state l \<noteq> Some Stopped"
  then show "state (stop l) = Some Stopping" by (simp add: stop_def)
  from a show "worker (stop l) = set_delay (- 1) (worker l)" by (simp add: stop_def)
  from a show "delay (options (stop l)) = - 1" by (simp add: stop_def options_def set_delay_def)
qed

text \<open>
  The theorem at a sleeping loop and at a loop in a cycle, both stopped, each followed by
  steps of the loop.
\<close>

theorem loop_stops_once_witness:
  "phase (worker (running_loop ''0'')) = Sleeping \<and> hasDone (ctx (worker (running_loop ''0'')))
   \<and> doneCalls (loop_steps [(1000, Inr r_repo), (3000, Inl (Error ''late''))]
        (set_delay (- 1) (worker (running_loop ''0'')))) = 1
   \<and> cycles (loop_steps [(1000, Inr r_repo), (3000, Inl (Error ''late''))]
        (set_delay (- 1) (worker (running_loop ''0'')))) = 0
   \<and> phase w_cycling = Cycling
   \<and> doneCalls (loop_steps [(1000, Inr r_repo)] (set_delay (- 1) w_cycling)) = 1
   \<and> cycles (loop_steps [(1000, Inr r_repo)] (set_delay (- 1) w_cycling)) = 4
   \<and> stop (stop (running_loop ''0'')) = stop (running_loop ''0'')
   \<and> state (stop (running_loop ''0'')) = Some Stopping
   \<and> delay (options (stop (running_loop ''0''))) = - 1"
  using
    loop_stops_once [of "worker (running_loop ''0'')"
      "[(1000, Inr r_repo), (3000, Inl (Error ''late''))]" "running_loop ''0''"]
    loop_stops_once [of w_cycling "[(1000, Inr r_repo)]" "running_loop ''0''"]
  by (simp add: running_loop_def w_cycling_def)

section \<open>Reconciling the loops of the service\<close>

lemma status_length: "status ls = int (length ls)"
proof -
  have "\<And>n. foldl (\<lambda>n l. n + (if True then 1 else 0)) n ls = n + int (length ls)"
    by (induction ls) simp_all
  then show ?thesis by (simp add: status_def)
qed

lemma shift_and_stop_take_drop:
  "n \<le> length ls \<Longrightarrow>
     shift_and_stop n ls acc = Inr (drop n ls, acc @ map stop (take n ls))"
proof (induction n ls acc rule: shift_and_stop.induct)
  case (1 ls stopped)
  show ?case by simp
next
  case (2 n stopped)
  then show ?case by simp
next
  case (3 n l ls stopped)
  then show ?case by simp
qed

lemma loop_run_new: "loop_run (new_CrawlerLoop n) = Inr (running_loop n)"
  by (simp add: loop_run_def new_CrawlerLoop_def run_def running_loop_def)

lemma spawn_loops_map:
  "spawn_loops i n ls =
     Inr (ls @ map (\<lambda>k. running_loop (int_toString (int k))) [i..<i + n])"
proof (induction n arbitrary: i ls)
  case 0
  show ?case by simp
next
  case (Suc n)
  show ?case
    by (simp add: loop_run_new Suc.IH upt_rec [of i "Suc (i + n)"] del: upt_Suc)
qed

text \<open>
  The statement of C9 fails where it takes the loops to stop from the tail: with the
  running loops a, b, c and a count of 2, \<open>ensureLoops\<close> stops a, the first loop, and
  keeps b and c.
\<close>

theorem ensureLoops_head_counterexample:
  "loops svc_shrink = [running_loop ''a'', running_loop ''b'', running_loop ''c'']
   \<and> count svc_shrink = 2
   \<and> ensureLoops svc_shrink
     = Inr (\<lparr>loops = [running_loop ''b'', running_loop ''c''], count = 2\<rparr>,
            [stop (running_loop ''a'')])
   \<and> running (running_loop ''c'')
   \<and> state (stop (running_loop ''a'')) = Some Stopping"
  by (simp add: svc_shrink_def ensureLoops_def status_def running_def running_loop_def
        stop_def Let_def numeral_2_eq_2 numeral_3_eq_3)

text \<open>
  C9, as amended. \<open>ensureLoops\<close> first keeps the running loops only. When the count
  is at least their number, it runs and appends count minus running new loops, named 0,
  1, ..., and stops none. When the count, not negative, is below their number, it stops
  running minus count loops, taken from the head of the loop set, and keeps the rest.
\<close>

theorem ensureLoops_reconciles:
  "(\<forall>n. loop_run (new_CrawlerLoop n) = Inr (running_loop n) \<and> running (running_loop n))
   \<and> (int (length (filter running (loops s))) \<le> count s \<longrightarrow>
       ensureLoops s =
         Inr (s\<lparr>loops := filter running (loops s) @
                  map (\<lambda>k. running_loop (int_toString (int k)))
                    [0..<nat (count s - int (length (filter running (loops s))))]\<rparr>,
              []))
   \<and> (0 \<le> count s \<and> count s < int (length (filter running (loops s))) \<longrightarrow>
       ensureLoops s =
         Inr (s\<lparr>loops := drop (nat (int (length (filter running (loops s))) - count s))
                           (filter running (loops s))\<rparr>,
              map stop (take (nat (int (length (filter running (loops s))) - count s))
                          (filter running (loops s)))))"
proof (intro conjI impI allI)
  fix n
  show "loop_run (new_CrawlerLoop n) = Inr (running_loop n)" by (rule loop_run_new)
  show "running (running_loop n)" by (simp add: running_def running_loop_def)
next
  assume "int (length (filter running (loops s))) \<le> count s"
  then show "ensureLoops s =
         Inr (s\<lparr>loops := filter running (loops s) @
                  map (\<lambda>k. running_loop (int_toString (int k)))
                    [0..<nat (count s - int (length (filter running (loops s))))]\<rparr>,
              [])"
    by (simp add: ensureLoops_def status_length Let_def spawn_loops_map)
next
  assume a: "0 \<le> count s \<and> count s < int (length (filter running (loops s)))"
  then have le: "nat (int (length (filter running (loops s))) - count s)
      \<le> length (filter running (loops s))" by arith
  have ab: "nat \<bar>count s - int (length (filter running (loops s)))\<bar>
      = nat (int (length (filter running (loops s))) - count s)" using a by simp
  from a show "ensureLoops s =
         Inr (s\<lparr>loops := drop (nat (int (length (filter running (loops s))) - count s))
                           (filter running (loops s))\<rparr>,
              map stop (take (nat (int (length (filter running (loops s))) - count s))
                          (filter running (loops s))))"
    by (simp add: ensureLoops_def status_length Let_def ab shift_and_stop_take_drop [OF le])
qed

text \<open>The theorem at a service that has to stop one loop and at one that has to start two.\<close>

theorem ensureLoops_reconciles_witness:
  "ensureLoops svc_shrink
     = Inr (\<lparr>loops = [running_loop ''b'', running_loop ''c''], count = 2\<rparr>,
            [stop (running_loop ''a'')])
   \<and> ensureLoops svc_grow
     = Inr (\<lparr>loops = [running_loop ''a'', running_loop ''c'', running_loop ''0'',
                      running_loop ''1''], count = 4\<rparr>, [])"
proof -
  have f1: "filter running (loops svc_shrink)
      = [running_loop ''a'', running_loop ''b'', running_loop ''c'']"
    and c1: "count svc_shrink = 2"
    by (simp_all add: svc_shrink_def running_def running_loop_def)
  have f2: "filter running (loops svc_grow) = [running_loop ''a'', running_loop ''c'']"
    and c2: "count svc_grow = 4"
    by (simp_all add: svc_grow_def running_def running_loop_def stop_def)
  have n: "map (\<lambda>k. running_loop (int_toString (int k))) [0..<2]
      = [running_loop ''0'', running_loop ''1'']"
    by (simp add: upt_rec int_toString_def digit_char_def)
  have s1: "ensureLoops svc_shrink
      = Inr (svc_shrink\<lparr>loops := [running_loop ''b'', running_loop ''c'']\<rparr>,
             [stop (running_loop ''a'')])"
    using ensureLoops_reconciles [of svc_shrink] by (simp add: f1 c1)
  have s2: "ensureLoops svc_grow
      = Inr (svc_grow\<lparr>loops := [running_loop ''a'', running_loop ''c'', running_loop ''0'',
               running_loop ''1'']\<rparr>, [])"
    using ensureLoops_reconciles [of svc_grow] by (simp add: f2 c2 n)
  show ?thesis
    unfolding s1 s2 by (simp add: svc_shrink_def svc_grow_def)
qed

end
